theory Spec2Isabelle
  imports Complex_Main "HOL-Library.Sublist"
begin

section \<open>Data model (lib/types)\<close>

text \<open>
  A TypeScript \<open>number\<close> that carries money is modelled as an exact rational: the
  arithmetic of the source (\<open>+\<close>, \<open>*\<close>, \<open>/\<close>, comparison) is read over the rationals,
  without the rounding error, \<open>NaN\<close> and infinities of IEEE doubles. Counts (quantity,
  minSelection, maxSelection) are integers. Strings are lists of characters and are
  taken to be ASCII. Field names are the source's, prefixed where two interfaces share
  a name (\<open>id\<close>, \<open>name\<close>, \<open>priceAdjustment\<close>, \<open>isAvailable\<close>).
\<close>

type_synonym number = rat

record ModifierOption =
  opt_id :: string
  opt_name :: string
  opt_priceAdjustment :: number
  opt_isAvailable :: bool

record ModifierGroup =
  grp_id :: string
  grp_name :: string
  minSelection :: int
  maxSelection :: int
  options :: "ModifierOption list"

record MenuItem =
  menu_id :: string
  menu_name :: string
  description :: string
  basePrice :: number
  category :: string
  imageUrl :: "string option"
  menu_isAvailable :: bool
  modifierGroups :: "ModifierGroup list"

record SelectedModifier =
  groupId :: string
  optionId :: string
  sel_name :: string
  sel_priceAdjustment :: number

record OrderItem =
  line_id :: string
  menuItemId :: string
  line_name :: string
  quantity :: int
  unitPrice :: number
  selectedModifiers :: "SelectedModifier list"
  specialInstructions :: "string option"

datatype OrderStatus = pending | confirmed | preparing | ready | completed | cancelled

record Order =
  order_id :: string
  customerId :: "string option"
  items :: "OrderItem list"
  subtotal :: number
  tax :: number
  total :: number
  status :: OrderStatus
  createdAt :: string
  updatedAt :: string

section \<open>Numbers and strings of the platform\<close>

text \<open>
  \<open>Number(x.toFixed(2))\<close>: the nearest multiple of 1/100, a tie going away from zero
  (\<open>toFixed\<close> rounds the absolute value, picking the larger candidate on a tie, and puts
  the sign back).
\<close>

definition toFixed2 :: "number \<Rightarrow> number" where
  "toFixed2 x =
     (if x < 0 then - (of_int \<lfloor>(- x) * 100 + 1 / 2\<rfloor> / 100)
      else of_int \<lfloor>x * 100 + 1 / 2\<rfloor> / 100)"

text \<open>Decimal rendering of a non-negative integer, as a template literal prints it.\<close>

definition digit_char :: "nat \<Rightarrow> char" where
  "digit_char d = ''0123456789'' ! d"

fun show_nat :: "nat \<Rightarrow> string" where
  "show_nat n = (if n < 10 then [digit_char n] else show_nat (n div 10) @ [digit_char (n mod 10)])"

declare show_nat.simps [simp del]

definition show_int :: "int \<Rightarrow> string" where
  "show_int i = (if i < 0 then CHR ''-'' # show_nat (nat (- i)) else show_nat (nat i))"

text \<open>\<open>Array.prototype.join\<close> on strings.\<close>

fun join :: "string \<Rightarrow> string list \<Rightarrow> string" where
  "join sep [] = []"
| "join sep [x] = x"
| "join sep (x # y # ys) = x @ sep @ join sep (y # ys)"

text \<open>\<open>String.prototype.includes\<close>: the pattern occurs as a contiguous run.\<close>

fun str_includes :: "string \<Rightarrow> string \<Rightarrow> bool" where
  "str_includes [] p = (p = [])"
| "str_includes (c # cs) p = (prefix p (c # cs) \<or> str_includes cs p)"

section \<open>Order validator (lib/order\_validator.ts)\<close>

datatype ErrorCode =
  ITEM_NOT_FOUND | ITEM_UNAVAILABLE | MODIFIER_REQUIRED | MODIFIER_INVALID | PRICE_MISMATCH

text \<open>
  The \<open>details\<close> object of an error: \<open>{groupId, required, provided}\<close> for a missing
  selection, \<open>{groupId, max, provided}\<close> for too many.
\<close>

datatype Details =
  RequiredDetails string int nat
| MaxDetails string int nat

record ValidationError =
  code :: ErrorCode
  message :: string
  itemId :: "string option"
  err_menuItemId :: "string option"
  details :: "Details option"

record ValidationResult =
  isValid :: bool
  errors :: "ValidationError list"
  validatedOrder :: Order

text \<open>The error objects pushed by \<open>validateOrder\<close>, one definition per \<open>errors.push\<close>.\<close>

definition itemNotFound :: "OrderItem \<Rightarrow> ValidationError" where
  "itemNotFound item =
     \<lparr>code = ITEM_NOT_FOUND,
      message = ''Menu item with ID '' @ [CHR 0x27] @ menuItemId item @ [CHR 0x27] @ '' not found.'',
      itemId = Some (line_id item), err_menuItemId = Some (menuItemId item), details = None\<rparr>"

definition itemUnavailable :: "OrderItem \<Rightarrow> MenuItem \<Rightarrow> ValidationError" where
  "itemUnavailable item menuDef =
     \<lparr>code = ITEM_UNAVAILABLE,
      message = ''Item '' @ [CHR 0x27] @ menu_name menuDef @ [CHR 0x27] @ '' is currently unavailable.'',
      itemId = Some (line_id item), err_menuItemId = Some (menuItemId item), details = None\<rparr>"

definition modifierRequired :: "OrderItem \<Rightarrow> ModifierGroup \<Rightarrow> nat \<Rightarrow> ValidationError" where
  "modifierRequired item grp provided =
     \<lparr>code = MODIFIER_REQUIRED,
      message = ''Selection required for '' @ [CHR 0x27] @ grp_name grp @ [CHR 0x27] @ ''.'',
      itemId = Some (line_id item), err_menuItemId = Some (menuItemId item),
      details = Some (RequiredDetails (grp_id grp) (minSelection grp) provided)\<rparr>"

definition tooManySelections :: "OrderItem \<Rightarrow> ModifierGroup \<Rightarrow> nat \<Rightarrow> ValidationError" where
  "tooManySelections item grp provided =
     \<lparr>code = MODIFIER_INVALID,
      message = ''Too many selections for '' @ [CHR 0x27] @ grp_name grp @ [CHR 0x27]
        @ ''. Max allowed: '' @ show_int (maxSelection grp) @ ''.'',
      itemId = Some (line_id item), err_menuItemId = Some (menuItemId item),
      details = Some (MaxDetails (grp_id grp) (maxSelection grp) provided)\<rparr>"

definition invalidOption :: "OrderItem \<Rightarrow> ModifierGroup \<Rightarrow> string \<Rightarrow> ValidationError" where
  "invalidOption item grp oid =
     \<lparr>code = MODIFIER_INVALID,
      message = ''Invalid option ID '' @ [CHR 0x27] @ oid @ [CHR 0x27] @ '' for group ''
        @ [CHR 0x27] @ grp_name grp @ [CHR 0x27] @ ''.'',
      itemId = Some (line_id item), err_menuItemId = Some (menuItemId item), details = None\<rparr>"

definition optionUnavailable :: "OrderItem \<Rightarrow> ModifierOption \<Rightarrow> ValidationError" where
  "optionUnavailable item optionDef =
     \<lparr>code = MODIFIER_INVALID,
      message = ''Option '' @ [CHR 0x27] @ opt_name optionDef @ [CHR 0x27] @ '' is currently unavailable.'',
      itemId = Some (line_id item), err_menuItemId = Some (menuItemId item), details = None\<rparr>"

text \<open>
  \<open>userSelectionsByGroup\<close>: the \<open>Map\<close> from a group id to the option ids selected for it,
  in the order of \<open>item.selectedModifiers\<close>. \<open>selectionsFor\<close> is
  \<open>userSelectionsByGroup.get(group.id) || []\<close>.
\<close>

definition addSelection ::
  "SelectedModifier \<Rightarrow> (string \<rightharpoonup> string list) \<Rightarrow> (string \<rightharpoonup> string list)" where
  "addSelection sm m =
     m(groupId sm \<mapsto> (case m (groupId sm) of None \<Rightarrow> [] | Some existing \<Rightarrow> existing) @ [optionId sm])"

definition userSelectionsByGroup :: "SelectedModifier list \<Rightarrow> (string \<rightharpoonup> string list)" where
  "userSelectionsByGroup mods = fold addSelection mods Map.empty"

definition selectionsFor :: "(string \<rightharpoonup> string list) \<Rightarrow> string \<Rightarrow> string list" where
  "selectionsFor m g = (case m g of None \<Rightarrow> [] | Some ids \<Rightarrow> ids)"

text \<open>
  The state of the loop over one line's modifier groups: the shared \<open>errors\<close> array,
  \<open>currentUnitPrice\<close> and \<open>validatedModifiers\<close>.
\<close>

record LineState =
  ls_errors :: "ValidationError list"
  currentUnitPrice :: number
  validatedModifiers :: "SelectedModifier list"

text \<open>The body of the loop over \<open>userSelectedOptionIds\<close> (source lines 119 to 151).\<close>

definition checkOption :: "OrderItem \<Rightarrow> ModifierGroup \<Rightarrow> string \<Rightarrow> LineState \<Rightarrow> LineState" where
  "checkOption item grp oid st =
     (case find (\<lambda>opt. opt_id opt = oid) (options grp) of
        None \<Rightarrow> st\<lparr>ls_errors := ls_errors st @ [invalidOption item grp oid]\<rparr>
      | Some optionDef \<Rightarrow>
          \<lparr>ls_errors =
             (if \<not> opt_isAvailable optionDef
              then ls_errors st @ [optionUnavailable item optionDef] else ls_errors st),
           currentUnitPrice = currentUnitPrice st + opt_priceAdjustment optionDef,
           validatedModifiers = validatedModifiers st @
             [\<lparr>groupId = grp_id grp, optionId = opt_id optionDef,
               sel_name = opt_name optionDef,
               sel_priceAdjustment = opt_priceAdjustment optionDef\<rparr>]\<rparr>)"

text \<open>The body of the loop over \<open>menuDef.modifierGroups\<close> (source lines 93 to 152).\<close>

definition checkGroup ::
  "OrderItem \<Rightarrow> (string \<rightharpoonup> string list) \<Rightarrow> ModifierGroup \<Rightarrow> LineState \<Rightarrow> LineState" where
  "checkGroup item sel grp st =
     (let userSelectedOptionIds = selectionsFor sel (grp_id grp);
          st1 = (if int (length userSelectedOptionIds) < minSelection grp
                 then st\<lparr>ls_errors := ls_errors st @
                        [modifierRequired item grp (length userSelectedOptionIds)]\<rparr>
                 else st);
          st2 = (if int (length userSelectedOptionIds) > maxSelection grp
                 then st1\<lparr>ls_errors := ls_errors st1 @
                        [tooManySelections item grp (length userSelectedOptionIds)]\<rparr>
                 else st1)
      in fold (checkOption item grp) userSelectedOptionIds st2)"

text \<open>
  The state of the loop over \<open>order.items\<close>: \<open>errors\<close>, \<open>validatedItems\<close> and
  \<open>calculatedSubtotal\<close>.
\<close>

record ValState =
  vs_errors :: "ValidationError list"
  validatedItems :: "OrderItem list"
  calculatedSubtotal :: number

text \<open>
  The body of the loop over \<open>order.items\<close> (source lines 50 to 166). A line whose menu
  item is missing pushes its error and takes the \<open>continue\<close>: nothing is pushed to
  \<open>validatedItems\<close> and nothing is added to the subtotal.
\<close>

definition validateItem :: "MenuItem list \<Rightarrow> OrderItem \<Rightarrow> ValState \<Rightarrow> ValState" where
  "validateItem menu item st =
     (case find (\<lambda>m. menu_id m = menuItemId item) menu of
        None \<Rightarrow> st\<lparr>vs_errors := vs_errors st @ [itemNotFound item]\<rparr>
      | Some menuDef \<Rightarrow>
          (let errs1 = (if \<not> menu_isAvailable menuDef
                        then vs_errors st @ [itemUnavailable item menuDef] else vs_errors st);
               ls = fold (checkGroup item (userSelectionsByGroup (selectedModifiers item)))
                      (modifierGroups menuDef)
                      \<lparr>ls_errors = errs1, currentUnitPrice = basePrice menuDef,
                       validatedModifiers = []\<rparr>;
               validatedItem = item\<lparr>line_name := menu_name menuDef,
                                    unitPrice := currentUnitPrice ls,
                                    selectedModifiers := validatedModifiers ls\<rparr>
           in \<lparr>vs_errors = ls_errors ls,
               validatedItems = validatedItems st @ [validatedItem],
               calculatedSubtotal = calculatedSubtotal st
                 + unitPrice validatedItem * of_int (quantity validatedItem)\<rparr>))"

definition TAX_RATE :: number where
  "TAX_RATE = 8 / 100"

text \<open>
  \<open>validateOrder\<close>; \<open>now\<close> is the value of \<open>new Date().toISOString()\<close> at the call.
\<close>

definition validateOrder :: "Order \<Rightarrow> MenuItem list \<Rightarrow> string \<Rightarrow> ValidationResult" where
  "validateOrder order menu now =
     (let st = fold (validateItem menu) (items order)
                 \<lparr>vs_errors = [], validatedItems = [], calculatedSubtotal = 0\<rparr>;
          calculatedTax = calculatedSubtotal st * TAX_RATE;
          calculatedTotal = calculatedSubtotal st + calculatedTax
      in \<lparr>isValid = (vs_errors st = []),
          errors = vs_errors st,
          validatedOrder = order\<lparr>items := validatedItems st,
                                 subtotal := toFixed2 (calculatedSubtotal st),
                                 tax := toFixed2 calculatedTax,
                                 total := toFixed2 calculatedTotal,
                                 updatedAt := now\<rparr>\<rparr>)"

text \<open>The sum over an order's lines of unit price times quantity.\<close>

definition linesTotal :: "OrderItem list \<Rightarrow> number" where
  "linesTotal ls = (\<Sum>l\<leftarrow>ls. unitPrice l * of_int (quantity l))"

subsection \<open>The validator's loops as sums of per-step contributions\<close>

text \<open>
  Each loop body of \<open>validateOrder\<close> only appends to the error list, adds to the running
  price and appends to the rebuilt modifier list. \<open>ls_zero\<close> is the empty contribution and
  \<open>ls_plus\<close> puts a contribution after a state; \<open>lineCheck\<close> is what the loop over a menu
  item's modifier groups contributes for one line, \<open>lineErrors\<close> and \<open>lineOutput\<close> are what
  one iteration of the loop over the order's lines contributes to \<open>errors\<close> and to
  \<open>validatedItems\<close>.
\<close>

definition ls_zero :: LineState where
  "ls_zero = \<lparr>ls_errors = [], currentUnitPrice = 0, validatedModifiers = []\<rparr>"

definition ls_plus :: "LineState \<Rightarrow> LineState \<Rightarrow> LineState" where
  "ls_plus a b = \<lparr>ls_errors = ls_errors a @ ls_errors b,
     currentUnitPrice = currentUnitPrice a + currentUnitPrice b,
     validatedModifiers = validatedModifiers a @ validatedModifiers b\<rparr>"

definition lineCheck :: "OrderItem \<Rightarrow> MenuItem \<Rightarrow> LineState" where
  "lineCheck item menuDef =
     fold (checkGroup item (userSelectionsByGroup (selectedModifiers item)))
       (modifierGroups menuDef) ls_zero"

definition validatedLine :: "OrderItem \<Rightarrow> MenuItem \<Rightarrow> OrderItem" where
  "validatedLine item menuDef =
     item\<lparr>line_name := menu_name menuDef,
          unitPrice := basePrice menuDef + currentUnitPrice (lineCheck item menuDef),
          selectedModifiers := validatedModifiers (lineCheck item menuDef)\<rparr>"

definition lineErrors :: "MenuItem list \<Rightarrow> OrderItem \<Rightarrow> ValidationError list" where
  "lineErrors menu item =
     (case find (\<lambda>m. menu_id m = menuItemId item) menu of
        None \<Rightarrow> [itemNotFound item]
      | Some menuDef \<Rightarrow>
          (if \<not> menu_isAvailable menuDef then [itemUnavailable item menuDef] else [])
          @ ls_errors (lineCheck item menuDef))"

definition lineOutput :: "MenuItem list \<Rightarrow> OrderItem \<Rightarrow> OrderItem list" where
  "lineOutput menu item =
     (case find (\<lambda>m. menu_id m = menuItemId item) menu of
        None \<Rightarrow> []
      | Some menuDef \<Rightarrow> [validatedLine item menuDef])"

text \<open>
  A line without the selected modifiers whose group id is not the id of any modifier
  group of the referenced menu item (a line whose menu item is missing is left as it is).
\<close>

definition dropUnmatched :: "MenuItem list \<Rightarrow> OrderItem \<Rightarrow> OrderItem" where
  "dropUnmatched menu item =
     (case find (\<lambda>m. menu_id m = menuItemId item) menu of
        None \<Rightarrow> item
      | Some menuDef \<Rightarrow>
          item\<lparr>selectedModifiers :=
            filter (\<lambda>sm. groupId sm \<in> grp_id ` set (modifierGroups menuDef))
              (selectedModifiers item)\<rparr>)"

text \<open>The option ids a line selects in one modifier group, in the order of the line.\<close>

definition selectedIn :: "OrderItem \<Rightarrow> ModifierGroup \<Rightarrow> string list" where
  "selectedIn item grp =
     map optionId (filter (\<lambda>sm. groupId sm = grp_id grp) (selectedModifiers item))"

text \<open>An option id that names an available option of the group.\<close>

definition validSelection :: "ModifierGroup \<Rightarrow> string \<Rightarrow> bool" where
  "validSelection grp oid =
     (case find (\<lambda>opt. opt_id opt = oid) (options grp) of
        None \<Rightarrow> False
      | Some optionDef \<Rightarrow> opt_isAvailable optionDef)"




text \<open>The modifier group an error is about: the \<open>groupId\<close> of its \<open>details\<close>, when it has one.\<close>

definition groupOf :: "ValidationError \<Rightarrow> string option" where
  "groupOf e =
     (case details e of
        None \<Rightarrow> None
      | Some (RequiredDetails g required provided) \<Rightarrow> Some g
      | Some (MaxDetails g limit provided) \<Rightarrow> Some g)"


section \<open>Conversation engine (lib/conversationEngine.ts)\<close>

subsection \<open>Strings and regular expressions of the platform\<close>

text \<open>\<open>String.prototype.toLowerCase\<close> on ASCII text.\<close>

definition lowerChar :: "char \<Rightarrow> char" where
  "lowerChar c =
     (case map_of (zip ''ABCDEFGHIJKLMNOPQRSTUVWXYZ'' ''abcdefghijklmnopqrstuvwxyz'') c of
        None \<Rightarrow> c
      | Some l \<Rightarrow> l)"

definition toLowerCase :: "string \<Rightarrow> string" where
  "toLowerCase s = map lowerChar s"

text \<open>The character classes \<open>[a-z0-9]\<close>, \<open>\d\<close>, \<open>\s\<close> and \<open>\w\<close>.\<close>

definition isAlnum :: "char \<Rightarrow> bool" where
  "isAlnum c = (c \<in> set ''abcdefghijklmnopqrstuvwxyz0123456789'')"

definition isDigit :: "char \<Rightarrow> bool" where
  "isDigit c = (c \<in> set ''0123456789'')"

definition isSpace :: "char \<Rightarrow> bool" where
  "isSpace c = (c \<in> set [CHR 0x09, CHR 0x0A, CHR 0x0B, CHR 0x0C, CHR 0x0D, CHR 0x20])"

definition isWord :: "char \<Rightarrow> bool" where
  "isWord c =
     (c \<in> set ''abcdefghijklmnopqrstuvwxyzABCDEFGHIJKLMNOPQRSTUVWXYZ0123456789_'')"

text \<open>
  \<open>s.split(/[^a-z0-9]+/).filter(Boolean)\<close>: the maximal runs of \<open>[a-z0-9]\<close> in \<open>s\<close>;
  \<open>cur\<close> is the run being read.
\<close>

fun splitTokens :: "string \<Rightarrow> string \<Rightarrow> string list" where
  "splitTokens cur [] = (if cur = [] then [] else [cur])"
| "splitTokens cur (c # cs) =
     (if isAlnum c then splitTokens (cur @ [c]) cs
      else (if cur = [] then [] else [cur]) @ splitTokens [] cs)"

definition tokens :: "string \<Rightarrow> string list" where
  "tokens s = splitTokens [] s"

text \<open>
  The regular expressions \<open>extractQuantity\<close> builds, as syntax trees, and a backtracking
  matcher for them. \<open>ends r s i\<close> lists the positions where a match of \<open>r\<close> that starts at
  position \<open>i\<close> of \<open>s\<close> can end, in the order in which a backtracking matcher tries them:
  the alternatives of \<open>|\<close> from left to right, a greedy \<open>*\<close>, \<open>+\<close> or \<open>?\<close> from the longest
  match down.
\<close>

datatype cls = Digit | Space

datatype rx =
  Eps
| Fail
| Lit string
| Many0 cls
| Many1 cls
| Opt rx
| Alt rx rx
| Seq rx rx
| Bnd

definition inCls :: "cls \<Rightarrow> char \<Rightarrow> bool" where
  "inCls k c = (case k of Digit \<Rightarrow> isDigit c | Space \<Rightarrow> isSpace c)"

text \<open>\<open>\b\<close>: exactly one of the characters before and at position \<open>i\<close> is a word character.\<close>

definition wordAt :: "string \<Rightarrow> nat \<Rightarrow> bool" where
  "wordAt s i = (i < length s \<and> isWord (s ! i))"

definition atBoundary :: "string \<Rightarrow> nat \<Rightarrow> bool" where
  "atBoundary s i = ((0 < i \<and> wordAt s (i - 1)) \<noteq> wordAt s i)"

fun ends :: "rx \<Rightarrow> string \<Rightarrow> nat \<Rightarrow> nat list" where
  "ends Eps s i = [i]"
| "ends Fail s i = []"
| "ends (Lit w) s i = (if prefix w (drop i s) then [i + length w] else [])"
| "ends (Many0 k) s i = rev [i ..< i + length (takeWhile (inCls k) (drop i s)) + 1]"
| "ends (Many1 k) s i = rev [i + 1 ..< i + length (takeWhile (inCls k) (drop i s)) + 1]"
| "ends (Opt r) s i = ends r s i @ [i]"
| "ends (Alt a b) s i = ends a s i @ ends b s i"
| "ends (Seq a b) s i = concat (map (ends b s) (ends a s i))"
| "ends Bnd s i = (if atBoundary s i then [i] else [])"

definition alts :: "rx list \<Rightarrow> rx" where
  "alts rs = foldr Alt rs Fail"

definition seqs :: "rx list \<Rightarrow> rx" where
  "seqs rs = foldr Seq rs Eps"

text \<open>
  The first capture of the group \<open>(grp)\<close> in a match of \<open>pre (grp) post\<close> that starts at
  position \<open>i\<close>: the matcher tries the ways to match \<open>pre\<close> in order, for each of them the
  ways to match \<open>grp\<close> in order, and keeps the first for which \<open>post\<close> matches.
\<close>

definition captureAt :: "rx \<Rightarrow> rx \<Rightarrow> rx \<Rightarrow> string \<Rightarrow> nat \<Rightarrow> string option" where
  "captureAt pre grp post s i =
     (case find (\<lambda>(p0, p1). ends post s p1 \<noteq> [])
             (concat (map (\<lambda>p0. map (\<lambda>p1. (p0, p1)) (ends grp s p0)) (ends pre s i))) of
        None \<Rightarrow> None
      | Some (p0, p1) \<Rightarrow> Some (take (p1 - p0) (drop p0 s)))"

text \<open>\<open>s.match(re)?.[1]\<close> for a regular expression without the \<open>g\<close> flag: the leftmost start wins.\<close>

fun firstSome :: "(nat \<Rightarrow> 'a option) \<Rightarrow> nat list \<Rightarrow> 'a option" where
  "firstSome f [] = None"
| "firstSome f (i # is) = (case f i of None \<Rightarrow> firstSome f is | Some v \<Rightarrow> Some v)"

definition matchGroup1 :: "rx \<Rightarrow> rx \<Rightarrow> rx \<Rightarrow> string \<Rightarrow> string option" where
  "matchGroup1 pre grp post s = firstSome (captureAt pre grp post s) [0 ..< length s + 1]"

subsection \<open>Lexical item matcher\<close>

definition matchesMenuItem :: "string \<Rightarrow> string \<Rightarrow> bool" where
  "matchesMenuItem normalizedText itemName =
     (let normalizedName = toLowerCase itemName
      in if str_includes normalizedText normalizedName then True
         else list_ex (\<lambda>token. length token \<ge> 3 \<and> str_includes normalizedText token)
                (tokens normalizedName))"

text \<open>The table \<open>wordNumbers\<close>, in the order of the source.\<close>

definition wordNumbers :: "(string \<times> int) list" where
  "wordNumbers =
    [(''un'', 1), (''una'', 1), (''uno'', 1), (''dos'', 2), (''tres'', 3), (''cuatro'', 4),
     (''cinco'', 5), (''seis'', 6), (''siete'', 7), (''ocho'', 8), (''nueve'', 9),
     (''diez'', 10), (''once'', 11), (''doce'', 12), (''trece'', 13), (''catorce'', 14),
     (''quince'', 15), (''dieciseis'', 16), (''diecisiete'', 17), (''dieciocho'', 18),
     (''diecinueve'', 19), (''veinte'', 20), (''veintiuno'', 21), (''veintidos'', 22),
     (''veintitres'', 23), (''veinticuatro'', 24), (''veinticinco'', 25),
     (''veintiseis'', 26), (''veintisiete'', 27), (''veintiocho'', 28),
     (''veintinueve'', 29), (''treinta'', 30), (''cuarenta'', 40), (''cincuenta'', 50),
     (''sesenta'', 60), (''setenta'', 70), (''ochenta'', 80), (''noventa'', 90)]"

text \<open>
  The group \<open>(\d+|un|una|uno|dos|...|noventa)\<close> of both regular expressions: the numeral
  first, then the words in the order in which the source writes them.
\<close>

definition numberGroup :: rx where
  "numberGroup = alts (Many1 Digit # map Lit
    [''un'', ''una'', ''uno'', ''dos'', ''tres'', ''cuatro'', ''cinco'', ''seis'', ''siete'',
     ''ocho'', ''nueve'', ''diez'', ''once'', ''doce'', ''trece'', ''catorce'', ''quince'',
     ''dieciseis'', ''diecisiete'', ''dieciocho'', ''diecinueve'', ''veinte'', ''veintiuno'',
     ''veintidos'', ''veintitres'', ''veinticuatro'', ''veinticinco'', ''veintiseis'',
     ''veintisiete'', ''veintiocho'', ''veintinueve'', ''treinta'', ''cuarenta'',
     ''cincuenta'', ''sesenta'', ''setenta'', ''ochenta'', ''noventa''])"

text \<open>
  \<open>escapedName\<close>: the tokens of the lower-cased name joined by \<open>\s+\<close> (a token is made of
  \<open>[a-z0-9]\<close> only, so the escaping of special characters changes nothing).
\<close>

fun nameRx :: "string list \<Rightarrow> rx" where
  "nameRx [] = Eps"
| "nameRx [t] = Lit t"
| "nameRx (t # u # us) = Seq (Lit t) (Seq (Many1 Space) (nameRx (u # us)))"

text \<open>\<open>\s*(?:x)?\s*\<close>.\<close>

definition timesRx :: rx where
  "timesRx = seqs [Many0 Space, Opt (Lit ''x''), Many0 Space]"

text \<open>The value of a string of digits, and \<open>/^\d+$/.test(token)\<close>.\<close>

definition digitValue :: "char \<Rightarrow> nat" where
  "digitValue c = (case map_of (zip ''0123456789'' [0 ..< 10]) c of None \<Rightarrow> 0 | Some d \<Rightarrow> d)"

definition numberOfDigits :: "string \<Rightarrow> int" where
  "numberOfDigits s = int (foldl (\<lambda>n c. 10 * n + digitValue c) 0 s)"

definition allDigits :: "string \<Rightarrow> bool" where
  "allDigits s = (s \<noteq> [] \<and> list_all isDigit s)"

text \<open>\<open>Array.prototype.findIndex\<close>.\<close>

fun findIndex :: "('a \<Rightarrow> bool) \<Rightarrow> 'a list \<Rightarrow> nat option" where
  "findIndex P [] = None"
| "findIndex P (x # xs) =
     (if P x then Some 0 else (case findIndex P xs of None \<Rightarrow> None | Some i \<Rightarrow> Some (i + 1)))"

text \<open>The loop over the token window (source lines 290 to 298).\<close>

fun scanWindow :: "string list \<Rightarrow> int option" where
  "scanWindow [] = None"
| "scanWindow (token # rest) =
     (if allDigits token then Some (max 1 (numberOfDigits token))
      else (case map_of wordNumbers token of
              Some n \<Rightarrow> Some n
            | None \<Rightarrow> scanWindow rest))"

text \<open>
  \<open>extractQuantity\<close>. A capture of the number group is a numeral or a word of the table;
  \<open>Number\<close> of a numeral is taken to be its exact value. \<open>wordNumbers[token]\<close> is read
  among the table's own keys (the token \<open>constructor\<close>, which a JavaScript object also
  answers through its prototype, is outside the model).
\<close>

definition extractQuantity :: "string \<Rightarrow> string \<Rightarrow> int" where
  "extractQuantity normalizedText itemName =
     (let nameTokens = tokens (toLowerCase itemName);
          escapedName = nameRx nameTokens;
          matchBefore = matchGroup1 Bnd numberGroup (seqs [timesRx, escapedName, Bnd])
                          normalizedText;
          matchAfter = matchGroup1 (seqs [Bnd, escapedName, timesRx]) numberGroup Bnd
                         normalizedText;
          matched = (if nameTokens = [] then None
                     else (case matchBefore of Some m \<Rightarrow> Some m | None \<Rightarrow> matchAfter))
      in case matched of
           Some m \<Rightarrow>
             (if allDigits m then max 1 (numberOfDigits m)
              else (case map_of wordNumbers m of Some n \<Rightarrow> n | None \<Rightarrow> 1))
         | None \<Rightarrow>
             (let textTokens = tokens normalizedText
              in case findIndex (\<lambda>token. token \<in> set nameTokens) textTokens of
                   None \<Rightarrow> 1
                 | Some index \<Rightarrow>
                     (let windowStart = index - 3;
                          windowEnd = min (length textTokens) (index + 4)
                      in case scanWindow (take (windowEnd - windowStart)
                                            (drop windowStart textTokens)) of
                           Some q \<Rightarrow> q
                         | None \<Rightarrow> 1)))"

subsection \<open>Order mutator\<close>

text \<open>
  The part of \<open>addItemFromText\<close> after the menu item and the quantity are known (source
  lines 168 to 210). \<open>nowMs\<close> is the value of \<open>Date.now()\<close> and \<open>nowIso\<close> the value of
  \<open>new Date().toISOString()\<close>. The second component is \<open>addedItem\<close>.
\<close>

definition addMatchedItem ::
  "MenuItem \<Rightarrow> int \<Rightarrow> Order \<Rightarrow> nat \<Rightarrow> string \<Rightarrow> Order \<times> OrderItem option" where
  "addMatchedItem matchedMenuItem qty order nowMs nowIso =
     (let existingItem = find (\<lambda>item. menuItemId item = menu_id matchedMenuItem
                                 \<and> length (selectedModifiers item) = 0) (items order);
          newItem = \<lparr>line_id = ''line_'' @ show_nat nowMs,
                     menuItemId = menu_id matchedMenuItem,
                     line_name = menu_name matchedMenuItem,
                     quantity = qty,
                     unitPrice = basePrice matchedMenuItem,
                     selectedModifiers = [],
                     specialInstructions = None\<rparr>;
          updatedItems = (case existingItem of
              Some existing \<Rightarrow>
                map (\<lambda>item. if line_id item = line_id existing
                             then item\<lparr>quantity := quantity item + qty\<rparr> else item)
                  (items order)
            | None \<Rightarrow> items order @ [newItem]);
          taxRate = (if subtotal order > 0 then tax order / subtotal order else 0);
          subtotal' = foldl (\<lambda>total item. total + unitPrice item * of_int (quantity item)) 0
                        updatedItems;
          tax' = toFixed2 (subtotal' * taxRate);
          total' = toFixed2 (subtotal' + tax')
      in (order\<lparr>items := updatedItems, subtotal := subtotal', tax := tax', total := total',
                 updatedAt := nowIso\<rparr>,
          (case existingItem of None \<Rightarrow> Some newItem | Some existing \<Rightarrow> Some existing)))"

definition addItemFromText ::
  "string \<Rightarrow> MenuItem list \<Rightarrow> Order \<Rightarrow> nat \<Rightarrow> string \<Rightarrow> Order \<times> OrderItem option" where
  "addItemFromText userText menu order nowMs nowIso =
     (if menu = [] then (order, None)
      else
        (let normalizedText = toLowerCase userText
         in case find (\<lambda>item. matchesMenuItem normalizedText (menu_name item)) menu of
              None \<Rightarrow> (order, None)
            | Some matchedMenuItem \<Rightarrow>
                addMatchedItem matchedMenuItem
                  (extractQuantity normalizedText (menu_name matchedMenuItem))
                  order nowMs nowIso))"




subsection \<open>Conversation orchestrator\<close>

datatype SenderRole = user | assistant | system

text \<open>The two keys the orchestrator writes into a turn's \<open>metadata\<close>.\<close>

record Metadata =
  itemAdded :: "string option"
  orderStatusChanged :: "string option"

record ConversationTurn =
  turn_id :: string
  role :: SenderRole
  content :: string
  timestamp :: string
  metadata :: "Metadata option"

record ConversationState =
  conversationId :: string
  history :: "ConversationTurn list"
  currentOrder :: Order
  lastUpdated :: string

datatype ConversationError = ConversationError string string

text \<open>\<open>/confirm|place order/i.test(userText)\<close>.\<close>

definition finalizeIntent :: "string \<Rightarrow> bool" where
  "finalizeIntent userText =
     (str_includes (toLowerCase userText) ''confirm''
      \<or> str_includes (toLowerCase userText) ''place order'')"

text \<open>
  \<open>advanceConversation\<close>. The two external calls are given by their outcomes:
  \<open>fetched\<close> is the menu \<open>fetchMenu\<close> resolves to, or \<open>None\<close> when it throws (the menu is
  then empty); \<open>reply\<close> is the content of the turn \<open>generateAssistantReply\<close> resolves to,
  or \<open>None\<close> when it throws, which ends the call with a \<open>ConversationError\<close>.
  \<open>nowMs\<close> and \<open>nowIso\<close> are the clock, as above.
\<close>

definition advanceConversation ::
  "ConversationState \<Rightarrow> string \<Rightarrow> MenuItem list option \<Rightarrow> string option \<Rightarrow> nat \<Rightarrow> string
     \<Rightarrow> ConversationError + ConversationState" where
  "advanceConversation state userText fetched reply nowMs nowIso =
     (let userTurn = \<lparr>turn_id = ''turn_'' @ show_nat nowMs @ ''_user'', role = user,
                       content = userText, timestamp = nowIso, metadata = None\<rparr>;
          updatedHistory = history state @ [userTurn];
          menu = (case fetched of None \<Rightarrow> [] | Some m \<Rightarrow> m);
          orderUpdate = addItemFromText userText menu (currentOrder state) nowMs nowIso;
          nextOrderState = fst orderUpdate;
          metadata1 = \<lparr>itemAdded = map_option line_name (snd orderUpdate),
                         orderStatusChanged = None\<rparr>
      in case reply of
           None \<Rightarrow> Inl (ConversationError ''Failed to generate response.'' ''AI_SERVICE_ERROR'')
         | Some aiTurnContent \<Rightarrow>
             (let guard = (status (currentOrder state) = pending \<and> finalizeIntent userText);
                  validation = validateOrder (currentOrder state) menu nowIso;
                  nextOrderState' =
                    (if guard \<and> isValid validation
                     then nextOrderState\<lparr>status := confirmed\<rparr> else nextOrderState);
                  metadata' =
                    (if guard \<and> isValid validation
                     then metadata1\<lparr>orderStatusChanged := Some ''confirmed''\<rparr> else metadata1);
                  aiResponseContent =
                    (if guard \<and> \<not> isValid validation
                     then ''I can't place the order yet. ''
                            @ join '' '' (map message (errors validation))
                     else aiTurnContent);
                  assistantTurn = \<lparr>turn_id = ''turn_'' @ show_nat nowMs @ ''_ai'',
                                    role = assistant, content = aiResponseContent,
                                    timestamp = nowIso, metadata = Some metadata'\<rparr>
              in Inr \<lparr>conversationId = conversationId state,
                      history = updatedHistory @ [assistantTurn],
                      currentOrder = nextOrderState',
                      lastUpdated = nowIso\<rparr>))"

section \<open>Order submission client (lib/order\_submission\_client.ts)\<close>

text \<open>
  The external endpoint is a parameter: \<open>fetch url form n\<close> is the outcome of the call
  made on attempt \<open>n\<close> (the loop makes one call per attempt) with the request built from
  the order. A call either resolves to a response or throws an error with a name and a
  message. A response carries its status (\<open>response.ok\<close> is a status from 200 to 299)
  and what \<open>response.json()\<close> gives: the parsed object, or a rejection.
\<close>

record ResponseBody =
  body_confirmationId :: "string option"
  body_estimatedWaitTimeMinutes :: "number option"
  body_message :: "string option"

datatype JsonResult = JsonRejected string string | JsonParsed ResponseBody

record Response =
  resp_status :: nat
  statusText :: string
  json :: JsonResult

datatype FetchOutcome = Resolved Response | Thrown string string

type_synonym Endpoint = "string \<Rightarrow> (string \<times> string) list \<Rightarrow> nat \<Rightarrow> FetchOutcome"

datatype ReceivedStatus = received | processing

record SubmissionData =
  confirmationId :: string
  estimatedWaitTimeMinutes :: number
  sub_status :: ReceivedStatus

record ApiError =
  err_code :: string
  err_message :: string
  err_details :: "ResponseBody option"

datatype SubmissionResult = ApiResponse SubmissionData | ApiErrorResponse ApiError

text \<open>\<open>RETRY_CONFIG\<close>.\<close>

definition maxRetries :: nat where
  "maxRetries = 3"

definition initialDelayMs :: nat where
  "initialDelayMs = 1000"

definition backoffFactor :: nat where
  "backoffFactor = 2"

text \<open>
  What a run of \<open>submitOrder\<close> leaves behind: the result, the delays passed to
  \<open>sleep\<close> in order, and the number of calls made to the endpoint.
\<close>

record SubmitRun =
  outcome :: SubmissionResult
  slept :: "nat list"
  attempts :: nat

definition ok :: "Response \<Rightarrow> bool" where
  "ok r = (200 \<le> resp_status r \<and> resp_status r \<le> 299)"

text \<open>Truthiness of an optional string and of an optional number.\<close>

definition truthy :: "string option \<Rightarrow> bool" where
  "truthy s = (case s of None \<Rightarrow> False | Some v \<Rightarrow> v \<noteq> [])"

definition orElse :: "number option \<Rightarrow> number \<Rightarrow> number" where
  "orElse v d = (case v of None \<Rightarrow> d | Some x \<Rightarrow> if x = 0 then d else x)"

text \<open>The \<open>FormData\<close> of the request: two fields per order line.\<close>

definition formData :: "Order \<Rightarrow> (string \<times> string) list" where
  "formData order =
     concat (map (\<lambda>(index, item).
         [(''items['' @ show_nat index @ ''][id]'', menuItemId item),
          (''items['' @ show_nat index @ ''][quantity]'', show_int (quantity item))])
       (zip [0 ..< length (items order)] (items order)))"

text \<open>The failure returned for a non-2xx response that is not retried (lines 94 to 102).\<close>

definition httpFailure :: "Response \<Rightarrow> SubmissionResult" where
  "httpFailure r =
     (let errorBody = (case json r of
            JsonParsed b \<Rightarrow> b
          | JsonRejected n m \<Rightarrow>
              \<lparr>body_confirmationId = None, body_estimatedWaitTimeMinutes = None,
               body_message = Some (statusText r)\<rparr>)
      in ApiErrorResponse
          \<lparr>err_code = ''HTTP_'' @ show_nat (resp_status r),
           err_message = (if truthy (body_message errorBody) then the (body_message errorBody)
                          else ''External API returned status '' @ show_nat (resp_status r)),
           err_details = Some errorBody\<rparr>)"

definition networkFailure :: "string \<Rightarrow> SubmissionResult" where
  "networkFailure msg =
     ApiErrorResponse \<lparr>err_code = ''NETWORK_ERROR'', err_message = msg, err_details = None\<rparr>"

text \<open>
  The \<open>while\<close> loop of \<open>submitOrder\<close> (lines 57 to 148). An error thrown inside the
  \<open>try\<close>, by \<open>fetch\<close> or by \<open>response.json()\<close> on the success path, reaches the
  \<open>catch\<close>, which retries a \<open>TypeError\<close> or \<open>FetchError\<close> while attempts remain.
\<close>

function submitLoop :: "Endpoint \<Rightarrow> string \<Rightarrow> Order \<Rightarrow> nat \<Rightarrow> nat \<Rightarrow> nat list \<Rightarrow> SubmitRun" where
  "submitLoop fetch url order attempt currentDelay sleeps =
     (if attempt \<le> maxRetries then
        (let caught = (\<lambda>ename emsg.
               if (ename = ''TypeError'' \<or> ename = ''FetchError'') \<and> attempt < maxRetries
               then submitLoop fetch url order (attempt + 1) (currentDelay * backoffFactor)
                      (sleeps @ [currentDelay])
               else \<lparr>outcome = networkFailure emsg, slept = sleeps, attempts = attempt + 1\<rparr>)
         in case fetch (url @ ''?origin=API'') (formData order) attempt of
              Thrown ename emsg \<Rightarrow> caught ename emsg
            | Resolved response \<Rightarrow>
                if \<not> ok response then
                  (if (resp_status response \<ge> 500 \<or> resp_status response = 429)
                      \<and> attempt < maxRetries
                   then submitLoop fetch url order (attempt + 1) (currentDelay * backoffFactor)
                          (sleeps @ [currentDelay])
                   else \<lparr>outcome = httpFailure response, slept = sleeps,
                         attempts = attempt + 1\<rparr>)
                else
                  (case json response of
                     JsonRejected ename emsg \<Rightarrow> caught ename emsg
                   | JsonParsed data \<Rightarrow>
                       if \<not> truthy (body_confirmationId data) then
                         \<lparr>outcome = ApiErrorResponse
                            \<lparr>err_code = ''INVALID_RESPONSE'',
                             err_message = ''External API did not return a confirmation ID.'',
                             err_details = None\<rparr>,
                          slept = sleeps, attempts = attempt + 1\<rparr>
                       else
                         \<lparr>outcome = ApiResponse
                            \<lparr>confirmationId = the (body_confirmationId data),
                             estimatedWaitTimeMinutes =
                               orElse (body_estimatedWaitTimeMinutes data) 15,
                             sub_status = received\<rparr>,
                          slept = sleeps, attempts = attempt + 1\<rparr>))
      else \<lparr>outcome = ApiErrorResponse
              \<lparr>err_code = ''TIMEOUT'',
               err_message = ''Max retries exceeded while submitting order.'',
               err_details = None\<rparr>,
            slept = sleeps, attempts = attempt\<rparr>)"
  by pat_completeness auto
termination
  by (relation "measure (\<lambda>(fetch, url, order, attempt, currentDelay, sleeps). maxRetries + 1 - attempt)")
     auto

declare submitLoop.simps [simp del]

text \<open>\<open>submitOrder\<close>; \<open>url\<close> is \<open>config.orderSubmissionUrl\<close>, empty when not configured.\<close>

definition submitOrder :: "Endpoint \<Rightarrow> string \<Rightarrow> Order \<Rightarrow> SubmitRun" where
  "submitOrder fetch url order =
     (if url = [] then
        \<lparr>outcome = ApiErrorResponse
           \<lparr>err_code = ''CONFIG_ERROR'',
            err_message = ''Order submission URL is not configured.'',
            err_details = None\<rparr>,
         slept = [], attempts = 0\<rparr>
      else submitLoop fetch url order 0 initialDelayMs [])"

text \<open>
  A call answered by a transient failure, as a 503 is: a response with a 5xx status or
  the status 429.
\<close>

definition isTransient :: "Response \<Rightarrow> bool" where
  "isTransient r = (resp_status r \<ge> 500 \<or> resp_status r = 429)"

definition transientFailure :: "FetchOutcome \<Rightarrow> bool" where
  "transientFailure x = (case x of Resolved r \<Rightarrow> isTransient r | Thrown ename emsg \<Rightarrow> False)"

section \<open>Concrete menus and orders\<close>

definition mint_menu :: "MenuItem list" where
  "mint_menu = [\<lparr>menu_id = ''mint'', menu_name = ''Mint'', description = ''One mint'',
     basePrice = 144 / 1000, category = ''Sweets'', imageUrl = None,
     menu_isAvailable = True, modifierGroups = []\<rparr>]"

text \<open>The menu and the two orders of the repository's validator example.\<close>

definition cheese_group :: ModifierGroup where
  "cheese_group = \<lparr>grp_id = ''cheese_group'', grp_name = ''Cheese Selection'',
     minSelection = 0, maxSelection = 1,
     options = [\<lparr>opt_id = ''cheddar'', opt_name = ''Cheddar'', opt_priceAdjustment = 1,
                  opt_isAvailable = True\<rparr>,
                \<lparr>opt_id = ''swiss'', opt_name = ''Swiss'', opt_priceAdjustment = 3 / 2,
                  opt_isAvailable = True\<rparr>]\<rparr>"

definition ex_menu :: "MenuItem list" where
  "ex_menu =
    [\<lparr>menu_id = ''burger_classic'', menu_name = ''Classic Burger'',
      description = ''Beef patty with lettuce and tomato'', basePrice = 10,
      category = ''Main'', imageUrl = None, menu_isAvailable = True,
      modifierGroups = [cheese_group]\<rparr>,
     \<lparr>menu_id = ''fries_side'', menu_name = ''French Fries'',
      description = ''Crispy salted fries'', basePrice = 4,
      category = ''Sides'', imageUrl = None, menu_isAvailable = False,
      modifierGroups = []\<rparr>]"

definition pick :: "string \<Rightarrow> string \<Rightarrow> SelectedModifier" where
  "pick g opt = \<lparr>groupId = g, optionId = opt, sel_name = [], sel_priceAdjustment = 0\<rparr>"

definition mkLine :: "string \<Rightarrow> string \<Rightarrow> int \<Rightarrow> SelectedModifier list \<Rightarrow> OrderItem" where
  "mkLine lid mid q mods = \<lparr>line_id = lid, menuItemId = mid, line_name = [], quantity = q,
     unitPrice = 0, selectedModifiers = mods, specialInstructions = None\<rparr>"

definition mkOrder :: "string \<Rightarrow> OrderItem list \<Rightarrow> Order" where
  "mkOrder oid ls = \<lparr>order_id = oid, customerId = None, items = ls,
     subtotal = 0, tax = 0, total = 0, status = pending,
     createdAt = ''t0'', updatedAt = ''t0''\<rparr>"

definition validOrder :: Order where
  "validOrder = mkOrder ''ord_001''
     [mkLine ''item_1'' ''burger_classic'' 2 [pick ''cheese_group'' ''cheddar'']]"

definition invalidOrder :: Order where
  "invalidOrder = mkOrder ''ord_002''
     [mkLine ''item_2'' ''fries_side'' 1 [],
      mkLine ''item_3'' ''burger_classic'' 1
        [pick ''cheese_group'' ''cheddar'', pick ''cheese_group'' ''swiss'']]"

text \<open>A burger line that also carries a selection for a group the burger does not have.\<close>

definition sauceOrder :: Order where
  "sauceOrder = mkOrder ''ord_003''
     [mkLine ''item_4'' ''burger_classic'' 1
        [pick ''sauce_group'' ''mayo'', pick ''cheese_group'' ''swiss'']]"

text \<open>A menu item with a single-choice group (exactly one size), and lines for it.\<close>

definition size_group :: ModifierGroup where
  "size_group = \<lparr>grp_id = ''size'', grp_name = ''Size'', minSelection = 1, maxSelection = 1,
     options = [\<lparr>opt_id = ''small'', opt_name = ''Small'', opt_priceAdjustment = 0,
                  opt_isAvailable = True\<rparr>,
                \<lparr>opt_id = ''large'', opt_name = ''Large'', opt_priceAdjustment = 3 / 2,
                  opt_isAvailable = True\<rparr>]\<rparr>"

definition size_menu :: "MenuItem list" where
  "size_menu =
    [\<lparr>menu_id = ''soda'', menu_name = ''Soda'', description = ''Fountain soda'',
      basePrice = 2, category = ''Drinks'', imageUrl = None, menu_isAvailable = True,
      modifierGroups = [size_group]\<rparr>]"

definition soda_none :: OrderItem where
  "soda_none = mkLine ''item_5'' ''soda'' 1 []"

definition soda_two :: OrderItem where
  "soda_two = mkLine ''item_6'' ''soda'' 1 [pick ''size'' ''small'', pick ''size'' ''large'']"

text \<open>A menu item that lists two modifier groups under the same id.\<close>

definition twin_menu :: "MenuItem list" where
  "twin_menu =
    [\<lparr>menu_id = ''soda'', menu_name = ''Soda'', description = ''Fountain soda'',
      basePrice = 2, category = ''Drinks'', imageUrl = None, menu_isAvailable = True,
      modifierGroups = [size_group, size_group]\<rparr>]"

definition twinOrder :: Order where
  "twinOrder = mkOrder ''ord_004'' [mkLine ''item_7'' ''soda'' 1 [pick ''size'' ''large'']]"

text \<open>A menu with a price that is not a whole number of cents, and an order for it.\<close>

definition mintOrder :: Order where
  "mintOrder = mkOrder ''ord_005'' [mkLine ''line_1'' ''mint'' 1 []]"

text \<open>An order whose second line references an item the menu does not have.\<close>

definition ghostOrder :: Order where
  "ghostOrder = mkOrder ''ord_006''
     [mkLine ''line_1'' ''mint'' 2 [], mkLine ''line_2'' ''ghost'' 1 []]"

lemmas example_defs =
  cheese_group_def ex_menu_def pick_def mkLine_def mkOrder_def validOrder_def invalidOrder_def
  sauceOrder_def size_group_def size_menu_def soda_none_def soda_two_def twin_menu_def
  twinOrder_def mint_menu_def mintOrder_def ghostOrder_def






text \<open>A conversation whose cart holds the unavailable fries of the example menu.\<close>

definition friesState :: ConversationState where
  "friesState = \<lparr>conversationId = ''conv_1'', history = [],
     currentOrder = mkOrder ''ord_200'' [mkLine ''item_2'' ''fries_side'' 1 []],
     lastUpdated = ''t0''\<rparr>"



text \<open>An endpoint that is down for its first \<open>k\<close> calls and then accepts the order.\<close>

definition serviceUnavailable :: Response where
  "serviceUnavailable = \<lparr>resp_status = 503, statusText = ''Service Unavailable'',
     json = JsonRejected ''SyntaxError'' ''Unexpected end of JSON input''\<rparr>"

definition accepted :: Response where
  "accepted = \<lparr>resp_status = 200, statusText = ''OK'',
     json = JsonParsed \<lparr>body_confirmationId = Some ''conf_1'',
       body_estimatedWaitTimeMinutes = None, body_message = None\<rparr>\<rparr>"

definition downFor :: "nat \<Rightarrow> Endpoint" where
  "downFor k url form n = Resolved (if n < k then serviceUnavailable else accepted)"

section \<open>Properties of the validator\<close>

lemmas validator_defs =
  validateOrder_def validateItem_def checkGroup_def checkOption_def userSelectionsByGroup_def
  addSelection_def selectionsFor_def TAX_RATE_def toFixed2_def linesTotal_def Let_def


lemma ls_plus_zero [simp]: "ls_plus st ls_zero = st" "ls_plus ls_zero st = st"
  by (simp_all add: ls_plus_def ls_zero_def)

lemma ls_plus_assoc: "ls_plus (ls_plus a b) c = ls_plus a (ls_plus b c)"
  by (simp add: ls_plus_def)

lemma checkOption_plus: "checkOption item grp oid st = ls_plus st (checkOption item grp oid ls_zero)"
  by (simp add: checkOption_def ls_plus_def ls_zero_def split: option.split)

lemma fold_ls_plus:
  assumes "\<And>x st. f x st = ls_plus st (f x ls_zero)"
  shows "fold f xs st = ls_plus st (fold f xs ls_zero)"
proof (induction xs arbitrary: st)
  case Nil
  show ?case by simp
next
  case (Cons x xs)
  have "fold f (x # xs) st = fold f xs (f x st)" by simp
  also have "\<dots> = ls_plus (f x st) (fold f xs ls_zero)" by (rule Cons.IH)
  also have "\<dots> = ls_plus (ls_plus st (f x ls_zero)) (fold f xs ls_zero)"
    using assms [of x st] by simp
  also have "\<dots> = ls_plus st (ls_plus (f x ls_zero) (fold f xs ls_zero))"
    by (rule ls_plus_assoc)
  also have "ls_plus (f x ls_zero) (fold f xs ls_zero) = fold f xs (f x ls_zero)"
    by (rule Cons.IH [symmetric])
  finally show ?case by simp
qed

lemma checkGroup_plus: "checkGroup item sel grp st = ls_plus st (checkGroup item sel grp ls_zero)"
proof -
  have "\<And>s0. fold (checkOption item grp) (selectionsFor sel (grp_id grp)) s0
      = ls_plus s0 (fold (checkOption item grp) (selectionsFor sel (grp_id grp)) ls_zero)"
    by (rule fold_ls_plus) (rule checkOption_plus)
  note f = this
  show ?thesis
    unfolding checkGroup_def Let_def
    apply (subst f)
    apply (subst (2) f)
    apply (simp add: ls_plus_def ls_zero_def)
    done
qed

lemma selectionsFor_fold:
  "selectionsFor (fold addSelection mods m) g
     = selectionsFor m g @ map optionId (filter (\<lambda>sm. groupId sm = g) mods)"
  by (induction mods arbitrary: m) (auto simp: selectionsFor_def addSelection_def)

lemma selectionsFor_user:
  "selectionsFor (userSelectionsByGroup mods) g = map optionId (filter (\<lambda>sm. groupId sm = g) mods)"
  by (simp add: userSelectionsByGroup_def selectionsFor_fold) (simp add: selectionsFor_def)

lemma fold_checkGroup_plus:
  "fold (checkGroup item sel) gs st = ls_plus st (fold (checkGroup item sel) gs ls_zero)"
  by (rule fold_ls_plus) (rule checkGroup_plus)

lemma fold_checkGroup_init:
  "fold (checkGroup item sel) gs \<lparr>ls_errors = es, currentUnitPrice = p, validatedModifiers = []\<rparr>
     = \<lparr>ls_errors = es @ ls_errors (fold (checkGroup item sel) gs ls_zero),
        currentUnitPrice = p + currentUnitPrice (fold (checkGroup item sel) gs ls_zero),
        validatedModifiers = validatedModifiers (fold (checkGroup item sel) gs ls_zero)\<rparr>"
  using fold_checkGroup_plus
    [of item sel gs "\<lparr>ls_errors = es, currentUnitPrice = p, validatedModifiers = []\<rparr>"]
  by (simp add: ls_plus_def)

lemma validateItem_eq:
  "validateItem menu item st =
     \<lparr>vs_errors = vs_errors st @ lineErrors menu item,
      validatedItems = validatedItems st @ lineOutput menu item,
      calculatedSubtotal = calculatedSubtotal st + linesTotal (lineOutput menu item)\<rparr>"
proof (cases "find (\<lambda>m. menu_id m = menuItemId item) menu")
  case None
  then show ?thesis
    by (simp add: validateItem_def lineErrors_def lineOutput_def linesTotal_def)
next
  case (Some menuDef)
  then show ?thesis
    by (simp add: validateItem_def lineErrors_def lineOutput_def linesTotal_def Let_def
        fold_checkGroup_init lineCheck_def validatedLine_def)
qed

lemma linesTotal_append: "linesTotal (xs @ ys) = linesTotal xs + linesTotal ys"
  by (simp add: linesTotal_def)

lemma fold_validateItem:
  "fold (validateItem menu) ls st =
     \<lparr>vs_errors = vs_errors st @ concat (map (lineErrors menu) ls),
      validatedItems = validatedItems st @ concat (map (lineOutput menu) ls),
      calculatedSubtotal = calculatedSubtotal st + linesTotal (concat (map (lineOutput menu) ls))\<rparr>"
proof (induction ls arbitrary: st)
  case Nil
  show ?case by (simp add: linesTotal_def)
next
  case (Cons l ls)
  have "fold (validateItem menu) (l # ls) st = fold (validateItem menu) ls (validateItem menu l st)"
    by simp
  also have "\<dots> =
     \<lparr>vs_errors = vs_errors (validateItem menu l st) @ concat (map (lineErrors menu) ls),
      validatedItems = validatedItems (validateItem menu l st) @ concat (map (lineOutput menu) ls),
      calculatedSubtotal = calculatedSubtotal (validateItem menu l st)
        + linesTotal (concat (map (lineOutput menu) ls))\<rparr>"
    by (rule Cons.IH)
  finally show ?case
    by (simp add: validateItem_eq [of menu l st] linesTotal_append)
qed

lemma validateOrder_eq:
  "validateOrder order menu now =
     \<lparr>isValid = (concat (map (lineErrors menu) (items order)) = []),
      errors = concat (map (lineErrors menu) (items order)),
      validatedOrder = order
        \<lparr>items := concat (map (lineOutput menu) (items order)),
         subtotal := toFixed2 (linesTotal (concat (map (lineOutput menu) (items order)))),
         tax := toFixed2 (linesTotal (concat (map (lineOutput menu) (items order))) * TAX_RATE),
         total := toFixed2 (linesTotal (concat (map (lineOutput menu) (items order)))
                    + linesTotal (concat (map (lineOutput menu) (items order))) * TAX_RATE),
         updatedAt := now\<rparr>\<rparr>"
  by (simp add: validateOrder_def fold_validateItem Let_def)

lemma floor_rat_numeral [simp]:
  "\<lfloor>numeral a / numeral b :: rat\<rfloor> = numeral a div numeral b"
  using floor_divide_of_int_eq [of "numeral a" "numeral b", where ?'a = rat] by simp





text \<open>
  C4 as stated fails: the line \<open>line_2\<close> references an item the menu does not have; the
  error is recorded, and the returned order holds \<open>line_1\<close> only.
\<close>

theorem missing_item_counterexample:
  "find (\<lambda>m. menu_id m = ''ghost'') mint_menu = None
   \<and> map line_id (items ghostOrder) = [''line_1'', ''line_2'']
   \<and> map code (errors (validateOrder ghostOrder mint_menu ''t1'')) = [ITEM_NOT_FOUND]
   \<and> map line_id (items (validatedOrder (validateOrder ghostOrder mint_menu ''t1''))) = [''line_1'']"
  by (simp add: validator_defs example_defs itemNotFound_def)

lemma lineOutput_menuItemId:
  "l' \<in> set (lineOutput menu x) \<Longrightarrow>
     menuItemId l' = menuItemId x \<and> line_id l' = line_id x \<and> quantity l' = quantity x
     \<and> find (\<lambda>m. menu_id m = menuItemId x) menu \<noteq> None"
  by (cases "find (\<lambda>m. menu_id m = menuItemId x) menu")
     (simp_all add: lineOutput_def validatedLine_def)

text \<open>
  C4, as amended. For a line whose menu item id is not in the menu, the loop body records
  one item-not-found error and does nothing else (nothing is pushed to
  \<open>validatedItems\<close>, nothing is added to the subtotal); the result of \<open>validateOrder\<close>
  holds that error, is invalid, and no line of the returned order references the missing
  menu item: the line is left out of the returned order.
\<close>

theorem missing_item_dropped:
  assumes "find (\<lambda>m. menu_id m = menuItemId l) menu = None"
  shows "validateItem menu l st = st\<lparr>vs_errors := vs_errors st @ [itemNotFound l]\<rparr>
    \<and> (l \<in> set (items order) \<longrightarrow>
         itemNotFound l \<in> set (errors (validateOrder order menu now))
         \<and> \<not> isValid (validateOrder order menu now)
         \<and> (\<forall>l' \<in> set (items (validatedOrder (validateOrder order menu now))).
               menuItemId l' \<noteq> menuItemId l))"
proof -
  have a: "validateItem menu l st = st\<lparr>vs_errors := vs_errors st @ [itemNotFound l]\<rparr>"
    using assms by (simp add: validateItem_def)
  have le: "lineErrors menu l = [itemNotFound l]"
    using assms by (simp add: lineErrors_def)
  have mem: "itemNotFound l \<in> set (concat (map (lineErrors menu) (items order)))"
    if "l \<in> set (items order)"
  proof -
    have "itemNotFound l \<in> set (lineErrors menu l)" using le by simp
    then show ?thesis using that by auto
  qed
  have b: "itemNotFound l \<in> set (errors (validateOrder order menu now))"
    if "l \<in> set (items order)"
    using mem [OF that] by (simp add: validateOrder_eq)
  have c: "\<not> isValid (validateOrder order menu now)" if "l \<in> set (items order)"
  proof -
    have "concat (map (lineErrors menu) (items order)) \<noteq> []"
      using mem [OF that] by (metis empty_iff list.set(1))
    then show ?thesis by (simp add: validateOrder_eq)
  qed
  have d: "menuItemId l' \<noteq> menuItemId l"
    if "l' \<in> set (items (validatedOrder (validateOrder order menu now)))" for l'
  proof -
    from that obtain x where "l' \<in> set (lineOutput menu x)"
      by (auto simp: validateOrder_eq)
    then show ?thesis using lineOutput_menuItemId [of l' menu x] assms by auto
  qed
  show ?thesis using a b c d by blast
qed

text \<open>The second line of \<open>ghostOrder\<close> against \<open>mint_menu\<close>.\<close>

theorem missing_item_dropped_witness:
  "find (\<lambda>m. menu_id m = menuItemId (items ghostOrder ! 1)) mint_menu = None
   \<and> items ghostOrder ! 1 \<in> set (items ghostOrder)
   \<and> itemNotFound (items ghostOrder ! 1) \<in> set (errors (validateOrder ghostOrder mint_menu ''t1''))
   \<and> \<not> isValid (validateOrder ghostOrder mint_menu ''t1'')"
proof -
  have h: "find (\<lambda>m. menu_id m = menuItemId (items ghostOrder ! 1)) mint_menu = None"
    by (simp add: example_defs)
  have m: "items ghostOrder ! 1 \<in> set (items ghostOrder)"
    by (simp add: example_defs)
  show ?thesis
    using missing_item_dropped
      [OF h, where st = "\<lparr>vs_errors = [], validatedItems = [], calculatedSubtotal = 0\<rparr>"
        and order = ghostOrder and now = "''t1''"] h m
    by blast
qed

lemma checkOption_cong:
  assumes "line_id item = line_id item'" and "menuItemId item = menuItemId item'"
  shows "checkOption item grp oid st = checkOption item' grp oid st"
  using assms
  by (simp add: checkOption_def invalidOption_def optionUnavailable_def split: option.split)

lemma checkGroup_cong:
  assumes "line_id item = line_id item'" and "menuItemId item = menuItemId item'"
    and "selectionsFor sel (grp_id grp) = selectionsFor sel' (grp_id grp)"
  shows "checkGroup item sel grp st = checkGroup item' sel' grp st"
proof -
  have "checkOption item grp = checkOption item' grp"
    by (intro ext) (rule checkOption_cong [OF assms(1,2)])
  then show ?thesis
    using assms
    by (simp add: checkGroup_def Let_def modifierRequired_def tooManySelections_def)
qed

lemma fold_checkGroup_cong:
  assumes "line_id item = line_id item'" and "menuItemId item = menuItemId item'"
    and "\<And>g. g \<in> set gs \<Longrightarrow> selectionsFor sel (grp_id g) = selectionsFor sel' (grp_id g)"
  shows "fold (checkGroup item sel) gs st = fold (checkGroup item' sel') gs st"
  using assms(3)
proof (induction gs arbitrary: st)
  case Nil
  show ?case by simp
next
  case (Cons g gs)
  have "checkGroup item sel g st = checkGroup item' sel' g st"
    by (rule checkGroup_cong [OF assms(1,2)]) (simp add: Cons.prems)
  then show ?case using Cons by simp
qed

lemma checkGroup_selectedIn:
  "checkGroup item (userSelectionsByGroup (selectedModifiers item)) grp st =
     (let ids = selectedIn item grp;
          st1 = (if int (length ids) < minSelection grp
                 then st\<lparr>ls_errors := ls_errors st @ [modifierRequired item grp (length ids)]\<rparr>
                 else st);
          st2 = (if int (length ids) > maxSelection grp
                 then st1\<lparr>ls_errors := ls_errors st1 @ [tooManySelections item grp (length ids)]\<rparr>
                 else st1)
      in fold (checkOption item grp) ids st2)"
  by (simp add: checkGroup_def selectionsFor_user selectedIn_def)

lemma checkOption_valid_errors:
  "validSelection grp oid \<Longrightarrow> ls_errors (checkOption item grp oid st) = ls_errors st"
  by (auto simp: validSelection_def checkOption_def split: option.splits)

lemma fold_checkOption_valid_errors:
  "list_all (validSelection grp) ids \<Longrightarrow>
     ls_errors (fold (checkOption item grp) ids st) = ls_errors st"
  by (induction ids arbitrary: st) (simp_all add: checkOption_valid_errors)

lemma single_choice_group_pass:
  assumes "minSelection grp = 1" and "maxSelection grp = 1"
  shows "(selectedIn item grp = [] \<longrightarrow>
            checkGroup item (userSelectionsByGroup (selectedModifiers item)) grp st
              = st\<lparr>ls_errors := ls_errors st @ [modifierRequired item grp 0]\<rparr>
            \<and> code (modifierRequired item grp 0) = MODIFIER_REQUIRED
            \<and> details (modifierRequired item grp 0) = Some (RequiredDetails (grp_id grp) 1 0))
       \<and> (length (selectedIn item grp) = 2 \<and> list_all (validSelection grp) (selectedIn item grp) \<longrightarrow>
            ls_errors (checkGroup item (userSelectionsByGroup (selectedModifiers item)) grp st)
              = ls_errors st @ [tooManySelections item grp 2]
            \<and> code (tooManySelections item grp 2) = MODIFIER_INVALID
            \<and> details (tooManySelections item grp 2) = Some (MaxDetails (grp_id grp) 1 2))"
proof -
  have zero: "checkGroup item (userSelectionsByGroup (selectedModifiers item)) grp st
      = st\<lparr>ls_errors := ls_errors st @ [modifierRequired item grp 0]\<rparr>"
    if "selectedIn item grp = []"
    using that assms by (simp add: checkGroup_selectedIn Let_def)
  have two: "ls_errors (checkGroup item (userSelectionsByGroup (selectedModifiers item)) grp st)
      = ls_errors st @ [tooManySelections item grp 2]"
    if "length (selectedIn item grp) = 2" and "list_all (validSelection grp) (selectedIn item grp)"
  proof -
    have ne: "selectedIn item grp \<noteq> []" using that(1) by auto
    show ?thesis
      using that assms ne
      by (simp add: checkGroup_selectedIn Let_def fold_checkOption_valid_errors)
  qed
  show ?thesis
    using zero two assms by (simp add: modifierRequired_def tooManySelections_def)
qed

lemma fold_ls_zero_Cons:
  assumes "\<And>x st. f x st = ls_plus st (f x ls_zero)"
  shows "fold f (x # xs) ls_zero = ls_plus (f x ls_zero) (fold f xs ls_zero)"
  using fold_ls_plus [of f xs "f x ls_zero", OF assms] by simp

lemma fold_ls_errors:
  assumes "\<And>x st. f x st = ls_plus st (f x ls_zero)"
  shows "ls_errors (fold f xs ls_zero) = concat (map (\<lambda>x. ls_errors (f x ls_zero)) xs)"
proof (induction xs)
  case Nil
  show ?case by (simp add: ls_zero_def)
next
  case (Cons x xs)
  show ?case
    by (simp only: fold_ls_zero_Cons [of f, OF assms]) (simp add: ls_plus_def Cons.IH)
qed

lemma fold_ls_modifiers:
  assumes "\<And>x st. f x st = ls_plus st (f x ls_zero)"
  shows "validatedModifiers (fold f xs ls_zero)
    = concat (map (\<lambda>x. validatedModifiers (f x ls_zero)) xs)"
proof (induction xs)
  case Nil
  show ?case by (simp add: ls_zero_def)
next
  case (Cons x xs)
  show ?case
    by (simp only: fold_ls_zero_Cons [of f, OF assms]) (simp add: ls_plus_def Cons.IH)
qed

lemma checkOption_groupId:
  "sm \<in> set (validatedModifiers (checkOption item grp oid ls_zero)) \<Longrightarrow> groupId sm = grp_id grp"
  by (auto simp: checkOption_def ls_zero_def split: option.splits)

lemma checkOption_no_error_optionId:
  assumes "ls_errors (checkOption item grp oid ls_zero) = []"
  shows "map optionId (validatedModifiers (checkOption item grp oid ls_zero)) = [oid]"
proof (cases "find (\<lambda>opt. opt_id opt = oid) (options grp)")
  case None
  then show ?thesis using assms by (simp add: checkOption_def ls_zero_def)
next
  case (Some od)
  then have "opt_id od = oid" by (auto simp: find_Some_iff)
  then show ?thesis using Some by (simp add: checkOption_def ls_zero_def)
qed

lemma checkGroup_zero_modifiers:
  "validatedModifiers (checkGroup item sel grp ls_zero)
     = concat (map (\<lambda>oid. validatedModifiers (checkOption item grp oid ls_zero))
         (selectionsFor sel (grp_id grp)))"
proof -
  have "validatedModifiers (fold (checkOption item grp) ids st)
      = validatedModifiers st @ validatedModifiers (fold (checkOption item grp) ids ls_zero)"
    for ids st
    using fold_ls_plus [of "checkOption item grp" ids st, OF checkOption_plus]
    by (simp add: ls_plus_def)
  note a = this
  have b: "validatedModifiers (fold (checkOption item grp) ids ls_zero)
      = concat (map (\<lambda>oid. validatedModifiers (checkOption item grp oid ls_zero)) ids)" for ids
    by (rule fold_ls_modifiers) (rule checkOption_plus)
  show ?thesis
    unfolding checkGroup_def Let_def
    apply (subst a)
    apply (subst b)
    apply (simp add: ls_zero_def)
    done
qed

lemma checkGroup_zero_errors_suffix:
  "\<exists>pre. ls_errors (checkGroup item sel grp ls_zero)
     = pre @ concat (map (\<lambda>oid. ls_errors (checkOption item grp oid ls_zero))
         (selectionsFor sel (grp_id grp)))"
proof -
  have a: "ls_errors (fold (checkOption item grp) ids st)
      = ls_errors st @ ls_errors (fold (checkOption item grp) ids ls_zero)"
    for ids st
    using fold_ls_plus [of "checkOption item grp" ids st, OF checkOption_plus]
    by (simp add: ls_plus_def)
  have b: "ls_errors (fold (checkOption item grp) ids ls_zero)
      = concat (map (\<lambda>oid. ls_errors (checkOption item grp oid ls_zero)) ids)" for ids
    by (rule fold_ls_errors) (rule checkOption_plus)
  show ?thesis
    unfolding checkGroup_def Let_def
    by (subst a) (simp add: b)
qed

lemma checkGroup_groupId:
  "sm \<in> set (validatedModifiers (checkGroup item sel grp ls_zero)) \<Longrightarrow> groupId sm = grp_id grp"
  by (auto simp: checkGroup_zero_modifiers dest: checkOption_groupId)

lemma map_concat_singletons:
  "(\<And>x. x \<in> set xs \<Longrightarrow> map f (F x) = [x]) \<Longrightarrow> map f (concat (map F xs)) = xs"
  by (induction xs) simp_all

lemma checkGroup_no_error_optionIds:
  assumes "ls_errors (checkGroup item sel grp ls_zero) = []"
  shows "map optionId (validatedModifiers (checkGroup item sel grp ls_zero))
    = selectionsFor sel (grp_id grp)"
proof -
  from checkGroup_zero_errors_suffix [of item sel grp] assms
  have "concat (map (\<lambda>oid. ls_errors (checkOption item grp oid ls_zero))
         (selectionsFor sel (grp_id grp))) = []"
    by auto
  then have "\<And>oid. oid \<in> set (selectionsFor sel (grp_id grp)) \<Longrightarrow>
      ls_errors (checkOption item grp oid ls_zero) = []"
    by auto
  then have "\<And>oid. oid \<in> set (selectionsFor sel (grp_id grp)) \<Longrightarrow>
      map optionId (validatedModifiers (checkOption item grp oid ls_zero)) = [oid]"
    by (rule checkOption_no_error_optionId)
  then show ?thesis
    by (simp only: checkGroup_zero_modifiers) (rule map_concat_singletons)
qed

lemma lineCheck_modifiers:
  "validatedModifiers (lineCheck item menuDef)
     = concat (map (\<lambda>g. validatedModifiers
         (checkGroup item (userSelectionsByGroup (selectedModifiers item)) g ls_zero))
         (modifierGroups menuDef))"
  unfolding lineCheck_def by (rule fold_ls_modifiers) (rule checkGroup_plus)

lemma lineCheck_errors:
  "ls_errors (lineCheck item menuDef)
     = concat (map (\<lambda>g. ls_errors
         (checkGroup item (userSelectionsByGroup (selectedModifiers item)) g ls_zero))
         (modifierGroups menuDef))"
  unfolding lineCheck_def by (rule fold_ls_errors) (rule checkGroup_plus)

lemma lineCheck_groupId:
  "sm \<in> set (validatedModifiers (lineCheck item menuDef)) \<Longrightarrow>
     groupId sm \<in> grp_id ` set (modifierGroups menuDef)"
  by (auto simp: lineCheck_modifiers dest: checkGroup_groupId)

lemma filter_concat_distinct:
  assumes "distinct (map k gs)" and "g \<in> set gs"
    and "\<And>h x. h \<in> set gs \<Longrightarrow> x \<in> set (F h) \<Longrightarrow> key x = k h"
  shows "filter (\<lambda>x. key x = k g) (concat (map F gs)) = F g"
  using assms
proof (induction gs)
  case Nil
  then show ?case by simp
next
  case (Cons h gs)
  show ?case
  proof (cases "g = h")
    case True
    have "filter (\<lambda>x. key x = k h) (F h) = F h"
      using Cons.prems(3) [of h] by (simp add: filter_id_conv)
    moreover have "filter (\<lambda>x. key x = k h) (concat (map F gs)) = []"
    proof -
      have "\<And>x. x \<in> set (concat (map F gs)) \<Longrightarrow> key x \<noteq> k h"
      proof -
        fix x assume "x \<in> set (concat (map F gs))"
        then obtain h' where h': "h' \<in> set gs" "x \<in> set (F h')" by auto
        then have "key x = k h'" using Cons.prems(3) by simp
        moreover have "k h' \<noteq> k h" using Cons.prems(1) h'(1) by (metis distinct.simps(2) imageI list.simps(9) set_map)
        ultimately show "key x \<noteq> k h" by simp
      qed
      then show ?thesis by (simp add: filter_empty_conv)
    qed
    ultimately show ?thesis using True by simp
  next
    case False
    then have g: "g \<in> set gs" using Cons.prems(2) by simp
    have "k g \<noteq> k h" using Cons.prems(1) g by (metis distinct.simps(2) imageI list.simps(9) set_map)
    then have "filter (\<lambda>x. key x = k g) (F h) = []"
      using Cons.prems(3) [of h] by (auto simp: filter_empty_conv)
    moreover have "filter (\<lambda>x. key x = k g) (concat (map F gs)) = F g"
      using Cons.IH g Cons.prems(1,3) by simp
    ultimately show ?thesis by simp
  qed
qed

lemma lineCheck_idempotent:
  assumes "ls_errors (lineCheck item menuDef) = []"
    and "distinct (map grp_id (modifierGroups menuDef))"
  shows "lineCheck (validatedLine item menuDef) menuDef = lineCheck item menuDef"
proof -
  let ?sel = "userSelectionsByGroup (selectedModifiers item)"
  let ?F = "\<lambda>g. validatedModifiers (checkGroup item ?sel g ls_zero)"
  have sel: "selectionsFor (userSelectionsByGroup (selectedModifiers (validatedLine item menuDef)))
        (grp_id g) = selectionsFor ?sel (grp_id g)"
    if g: "g \<in> set (modifierGroups menuDef)" for g
  proof -
    have "ls_errors (checkGroup item ?sel g ls_zero) = []"
      using assms(1) g by (simp add: lineCheck_errors)
    then have ids: "map optionId (?F g) = selectionsFor ?sel (grp_id g)"
      by (rule checkGroup_no_error_optionIds)
    have "filter (\<lambda>sm. groupId sm = grp_id g) (concat (map ?F (modifierGroups menuDef))) = ?F g"
      by (rule filter_concat_distinct [OF assms(2) g]) (rule checkGroup_groupId)
    then show ?thesis
      by (simp add: selectionsFor_user validatedLine_def lineCheck_modifiers ids)
  qed
  have ids: "line_id (validatedLine item menuDef) = line_id item"
    "menuItemId (validatedLine item menuDef) = menuItemId item"
    by (simp_all add: validatedLine_def)
  show ?thesis
    unfolding lineCheck_def
    by (rule fold_checkGroup_cong [OF ids]) (rule sel)
qed

lemma validatedLine_idempotent:
  assumes "lineCheck (validatedLine item menuDef) menuDef = lineCheck item menuDef"
  shows "validatedLine (validatedLine item menuDef) menuDef = validatedLine item menuDef"
  unfolding validatedLine_def [of "validatedLine item menuDef"] assms
  by (simp add: validatedLine_def)

lemma line_idempotent:
  assumes "lineErrors menu x = []"
    and "\<And>d. d \<in> set menu \<Longrightarrow> distinct (map grp_id (modifierGroups d))"
  shows "concat (map (lineErrors menu) (lineOutput menu x)) = []
    \<and> concat (map (lineOutput menu) (lineOutput menu x)) = lineOutput menu x"
proof (cases "find (\<lambda>m. menu_id m = menuItemId x) menu")
  case None
  then show ?thesis using assms(1) by (simp add: lineErrors_def)
next
  case (Some d)
  from Some have "d \<in> set menu" by (auto simp: find_Some_iff)
  then have dist: "distinct (map grp_id (modifierGroups d))" by (rule assms(2))
  from assms(1) Some have av: "menu_isAvailable d" and ne: "ls_errors (lineCheck x d) = []"
    by (auto simp: lineErrors_def split: if_splits)
  have lc: "lineCheck (validatedLine x d) d = lineCheck x d"
    by (rule lineCheck_idempotent [OF ne dist])
  have vl: "validatedLine (validatedLine x d) d = validatedLine x d"
    by (rule validatedLine_idempotent [OF lc])
  have mid: "menuItemId (validatedLine x d) = menuItemId x"
    by (simp add: validatedLine_def)
  have out: "lineOutput menu x = [validatedLine x d]"
    using Some by (simp add: lineOutput_def)
  have "lineErrors menu (validatedLine x d) = []"
    using Some av ne by (simp add: lineErrors_def mid lc)
  moreover have "lineOutput menu (validatedLine x d) = [validatedLine x d]"
    using Some by (simp add: lineOutput_def mid vl)
  ultimately show ?thesis by (simp add: out)
qed

lemma lines_idempotent:
  assumes "concat (map (lineErrors menu) ls) = []"
    and "\<And>d. d \<in> set menu \<Longrightarrow> distinct (map grp_id (modifierGroups d))"
  shows "concat (map (lineErrors menu) (concat (map (lineOutput menu) ls))) = []
    \<and> concat (map (lineOutput menu) (concat (map (lineOutput menu) ls)))
        = concat (map (lineOutput menu) ls)"
  using assms(1)
proof (induction ls)
  case Nil
  show ?case by simp
next
  case (Cons x ls)
  from Cons.prems have x: "lineErrors menu x = []"
    and rest: "concat (map (lineErrors menu) ls) = []" by simp_all
  from line_idempotent [OF x assms(2)] Cons.IH [OF rest]
  show ?case by simp
qed

lemma dropUnmatched_lineCheck:
  "lineCheck (item\<lparr>selectedModifiers :=
       filter (\<lambda>sm. groupId sm \<in> grp_id ` set (modifierGroups menuDef))
         (selectedModifiers item)\<rparr>) menuDef
     = lineCheck item menuDef"
  unfolding lineCheck_def
proof (rule fold_checkGroup_cong)
  fix g assume g: "g \<in> set (modifierGroups menuDef)"
  have "filter (\<lambda>sm. groupId sm = grp_id g)
          (filter (\<lambda>sm. groupId sm \<in> grp_id ` set (modifierGroups menuDef))
             (selectedModifiers item))
      = filter (\<lambda>sm. groupId sm = grp_id g) (selectedModifiers item)"
    using g by (auto intro: filter_cong)
  then show "selectionsFor (userSelectionsByGroup (selectedModifiers
        (item\<lparr>selectedModifiers :=
           filter (\<lambda>sm. groupId sm \<in> grp_id ` set (modifierGroups menuDef))
             (selectedModifiers item)\<rparr>))) (grp_id g)
      = selectionsFor (userSelectionsByGroup (selectedModifiers item)) (grp_id g)"
    by (simp add: selectionsFor_user)
qed simp_all

lemma dropUnmatched_line:
  "lineErrors menu (dropUnmatched menu item) = lineErrors menu item"
  "lineOutput menu (dropUnmatched menu item) = lineOutput menu item"
proof -
  show "lineErrors menu (dropUnmatched menu item) = lineErrors menu item"
  proof (cases "find (\<lambda>m. menu_id m = menuItemId item) menu")
    case None
    then show ?thesis by (simp add: dropUnmatched_def)
  next
    case (Some d)
    then show ?thesis
      by (simp add: dropUnmatched_def lineErrors_def dropUnmatched_lineCheck
          itemUnavailable_def)
  qed
  show "lineOutput menu (dropUnmatched menu item) = lineOutput menu item"
  proof (cases "find (\<lambda>m. menu_id m = menuItemId item) menu")
    case None
    then show ?thesis by (simp add: dropUnmatched_def)
  next
    case (Some d)
    then show ?thesis
      by (simp add: dropUnmatched_def lineOutput_def validatedLine_def dropUnmatched_lineCheck)
  qed
qed

text \<open>
  C9, as amended. When every menu item's modifier groups have pairwise distinct ids and an
  order validates without errors, validating the returned order again against the same
  menu gives no errors and the same order (same lines, unit prices, subtotal, tax and
  total); only \<open>updatedAt\<close> is the time of the second run.
\<close>

theorem validation_idempotent:
  assumes "isValid (validateOrder order menu t1)"
    and "\<forall>d \<in> set menu. distinct (map grp_id (modifierGroups d))"
  shows "validateOrder (validatedOrder (validateOrder order menu t1)) menu t2
    = \<lparr>isValid = True, errors = [],
       validatedOrder = (validatedOrder (validateOrder order menu t1))\<lparr>updatedAt := t2\<rparr>\<rparr>"
proof -
  from assms(1) have ne: "concat (map (lineErrors menu) (items order)) = []"
    by (simp add: validateOrder_eq)
  have dist: "\<And>d. d \<in> set menu \<Longrightarrow> distinct (map grp_id (modifierGroups d))"
    using assms(2) by blast
  note idem = lines_idempotent [OF ne dist]
  have its: "items (validatedOrder (validateOrder order menu t1))
      = concat (map (lineOutput menu) (items order))"
    by (simp add: validateOrder_eq)
  show ?thesis
    by (subst validateOrder_eq) (simp add: its idem, simp add: validateOrder_eq)
qed

text \<open>
  C10. The selected modifiers of a line whose group id is not the id of any modifier group
  of the referenced menu item have no effect on validation: the ValidationResult (errors,
  validated lines with their unit prices, totals) is the one of the order without them,
  and every selected modifier of a validated line carries the id of a modifier group of
  the line's menu item.
\<close>

theorem unmatched_modifiers_ignored:
  "validateOrder (order\<lparr>items := map (dropUnmatched menu) (items order)\<rparr>) menu now
     = validateOrder order menu now
   \<and> (\<forall>l \<in> set (items (validatedOrder (validateOrder order menu now))).
        \<forall>sm \<in> set (selectedModifiers l).
          \<exists>menuDef. find (\<lambda>m. menu_id m = menuItemId l) menu = Some menuDef
            \<and> groupId sm \<in> grp_id ` set (modifierGroups menuDef))"
proof -
  have e: "lineErrors menu \<circ> dropUnmatched menu = lineErrors menu"
    and o: "lineOutput menu \<circ> dropUnmatched menu = lineOutput menu"
    by (rule ext, simp add: dropUnmatched_line)+
  have a: "validateOrder (order\<lparr>items := map (dropUnmatched menu) (items order)\<rparr>) menu now
     = validateOrder order menu now"
    by (simp add: validateOrder_eq e o)
  have b: "\<exists>menuDef. find (\<lambda>m. menu_id m = menuItemId l) menu = Some menuDef
            \<and> groupId sm \<in> grp_id ` set (modifierGroups menuDef)"
    if l: "l \<in> set (items (validatedOrder (validateOrder order menu now)))"
      and sm: "sm \<in> set (selectedModifiers l)" for l sm
  proof -
    from l obtain x where x: "x \<in> set (items order)" and lx: "l \<in> set (lineOutput menu x)"
      by (auto simp: validateOrder_eq)
    from lx obtain d where d: "find (\<lambda>m. menu_id m = menuItemId x) menu = Some d"
      and l_eq: "l = validatedLine x d"
      by (cases "find (\<lambda>m. menu_id m = menuItemId x) menu") (simp_all add: lineOutput_def)
    have "menuItemId l = menuItemId x" by (simp add: l_eq validatedLine_def)
    moreover have "groupId sm \<in> grp_id ` set (modifierGroups d)"
      using sm by (intro lineCheck_groupId [of sm x d]) (simp add: l_eq validatedLine_def)
    ultimately show ?thesis using d by simp
  qed
  show ?thesis using a b by blast
qed

text \<open>
  A burger with a mayo selection for a group the burger does not have: no error, the
  mayo is not in the validated line, and the unit price is 10 + 1.50.
\<close>

theorem unmatched_modifiers_ignored_witness:
  "validateOrder (sauceOrder\<lparr>items := map (dropUnmatched ex_menu) (items sauceOrder)\<rparr>) ex_menu ''t1''
     = validateOrder sauceOrder ex_menu ''t1''
   \<and> map selectedModifiers (items sauceOrder)
       = [[pick ''sauce_group'' ''mayo'', pick ''cheese_group'' ''swiss'']]
   \<and> errors (validateOrder sauceOrder ex_menu ''t1'') = []
   \<and> map unitPrice (items (validatedOrder (validateOrder sauceOrder ex_menu ''t1''))) = [23 / 2]
   \<and> map (map groupId \<circ> selectedModifiers)
         (items (validatedOrder (validateOrder sauceOrder ex_menu ''t1''))) = [[''cheese_group'']]"
  using unmatched_modifiers_ignored [where order = sauceOrder and menu = ex_menu and now = "''t1''"]
  by (simp add: validator_defs example_defs)

text \<open>The valid order of the repository's example, validated twice.\<close>

theorem validation_idempotent_witness:
  "isValid (validateOrder validOrder ex_menu ''t1'')
   \<and> list_all (\<lambda>d. distinct (map grp_id (modifierGroups d))) ex_menu
   \<and> validateOrder (validatedOrder (validateOrder validOrder ex_menu ''t1'')) ex_menu ''t2''
     = \<lparr>isValid = True, errors = [],
        validatedOrder = (validatedOrder (validateOrder validOrder ex_menu ''t1''))\<lparr>updatedAt := ''t2''\<rparr>\<rparr>
   \<and> total (validatedOrder (validateOrder validOrder ex_menu ''t1'')) = 2376 / 100"
proof -
  have v: "isValid (validateOrder validOrder ex_menu ''t1'')"
    by (simp add: validator_defs example_defs)
  have d: "\<forall>d \<in> set ex_menu. distinct (map grp_id (modifierGroups d))"
    by (simp add: example_defs)
  have t: "total (validatedOrder (validateOrder validOrder ex_menu ''t1'')) = 2376 / 100"
    by (simp add: validator_defs example_defs)
  show ?thesis
    using validation_idempotent [OF v d, where ?t2.0 = "''t2''"] v d t by (simp add: list_all_iff)
qed

text \<open>
  C9 as stated fails when a menu item lists two modifier groups under one id: the first
  run has no errors and copies the selection once per group; the second run then counts
  two selections in each group, reports them and prices the line differently.
\<close>

theorem validation_idempotent_counterexample:
  "isValid (validateOrder twinOrder twin_menu ''t1'')
   \<and> map code (errors (validateOrder (validatedOrder (validateOrder twinOrder twin_menu ''t1''))
        twin_menu ''t2'')) = [MODIFIER_INVALID, MODIFIER_INVALID]
   \<and> \<not> isValid (validateOrder (validatedOrder (validateOrder twinOrder twin_menu ''t1''))
        twin_menu ''t2'')
   \<and> total (validatedOrder (validateOrder twinOrder twin_menu ''t1'')) = 54 / 10
   \<and> total (validatedOrder (validateOrder (validatedOrder (validateOrder twinOrder twin_menu ''t1''))
        twin_menu ''t2'')) = 864 / 100"
  by (simp add: validator_defs example_defs tooManySelections_def)
















lemma checkOption_groupOf:
  "e \<in> set (ls_errors (checkOption item grp oid ls_zero)) \<Longrightarrow> groupOf e = None"
  by (auto simp: checkOption_def ls_zero_def groupOf_def invalidOption_def optionUnavailable_def
      split: option.splits if_splits)

lemma checkGroup_zero_errors:
  "ls_errors (checkGroup item sel grp ls_zero)
     = (if int (length (selectionsFor sel (grp_id grp))) < minSelection grp
        then [modifierRequired item grp (length (selectionsFor sel (grp_id grp)))] else [])
       @ (if int (length (selectionsFor sel (grp_id grp))) > maxSelection grp
          then [tooManySelections item grp (length (selectionsFor sel (grp_id grp)))] else [])
       @ concat (map (\<lambda>oid. ls_errors (checkOption item grp oid ls_zero))
           (selectionsFor sel (grp_id grp)))"
proof -
  have a: "ls_errors (fold (checkOption item grp) ids st)
      = ls_errors st @ ls_errors (fold (checkOption item grp) ids ls_zero)"
    for ids st
    using fold_ls_plus [of "checkOption item grp" ids st, OF checkOption_plus]
    by (simp add: ls_plus_def)
  have b: "ls_errors (fold (checkOption item grp) ids ls_zero)
      = concat (map (\<lambda>oid. ls_errors (checkOption item grp oid ls_zero)) ids)" for ids
    by (rule fold_ls_errors) (rule checkOption_plus)
  show ?thesis
    unfolding checkGroup_def Let_def
    apply (subst a)
    apply (subst b)
    apply (simp add: ls_zero_def)
    done
qed

lemma checkGroup_groupOf:
  "e \<in> set (ls_errors (checkGroup item sel grp ls_zero)) \<Longrightarrow>
     groupOf e = None \<or> groupOf e = Some (grp_id grp)"
  by (auto simp: checkGroup_zero_errors groupOf_def modifierRequired_def tooManySelections_def
      dest: checkOption_groupOf split: if_splits)

lemma filter_concat_keyed:
  assumes "distinct (map k gs)" and "g \<in> set gs"
    and "\<And>h x. h \<in> set gs \<Longrightarrow> x \<in> set (F h) \<Longrightarrow> key x = None \<or> key x = Some (k h)"
  shows "filter (\<lambda>x. key x = Some (k g)) (concat (map F gs))
    = filter (\<lambda>x. key x = Some (k g)) (F g)"
  using assms
proof (induction gs)
  case Nil
  then show ?case by simp
next
  case (Cons h gs)
  show ?case
  proof (cases "g = h")
    case True
    have "filter (\<lambda>x. key x = Some (k h)) (concat (map F gs)) = []"
    proof -
      have "\<And>x. x \<in> set (concat (map F gs)) \<Longrightarrow> key x \<noteq> Some (k h)"
      proof -
        fix x assume "x \<in> set (concat (map F gs))"
        then obtain h' where h': "h' \<in> set gs" "x \<in> set (F h')" by auto
        then have "key x = None \<or> key x = Some (k h')" using Cons.prems(3) by simp
        moreover have "k h' \<noteq> k h"
          using Cons.prems(1) h'(1) by (metis distinct.simps(2) imageI list.simps(9) set_map)
        ultimately show "key x \<noteq> Some (k h)" by auto
      qed
      then show ?thesis by (simp add: filter_empty_conv)
    qed
    then show ?thesis using True by simp
  next
    case False
    then have g: "g \<in> set gs" using Cons.prems(2) by simp
    have "k g \<noteq> k h"
      using Cons.prems(1) g by (metis distinct.simps(2) imageI list.simps(9) set_map)
    then have "filter (\<lambda>x. key x = Some (k g)) (F h) = []"
      using Cons.prems(3) [of h] by (fastforce simp: filter_empty_conv)
    moreover have "filter (\<lambda>x. key x = Some (k g)) (concat (map F gs))
        = filter (\<lambda>x. key x = Some (k g)) (F g)"
      using Cons.IH g Cons.prems(1,3) by simp
    ultimately show ?thesis by simp
  qed
qed

lemma validateItem_new_errors:
  "drop (length (vs_errors st)) (vs_errors (validateItem menu item st)) = lineErrors menu item"
  by (simp add: validateItem_eq)

lemma lineErrors_group_filter:
  assumes "find (\<lambda>m. menu_id m = menuItemId item) menu = Some menuDef"
    and "grp \<in> set (modifierGroups menuDef)"
    and "distinct (map grp_id (modifierGroups menuDef))"
  shows "filter (\<lambda>e. groupOf e = Some (grp_id grp)) (lineErrors menu item)
    = filter (\<lambda>e. groupOf e = Some (grp_id grp))
        (ls_errors (checkGroup item (userSelectionsByGroup (selectedModifiers item)) grp ls_zero))"
proof -
  have "filter (\<lambda>e. groupOf e = Some (grp_id grp)) (ls_errors (lineCheck item menuDef))
    = filter (\<lambda>e. groupOf e = Some (grp_id grp))
        (ls_errors (checkGroup item (userSelectionsByGroup (selectedModifiers item)) grp ls_zero))"
    unfolding lineCheck_errors
    by (rule filter_concat_keyed [OF assms(3,2)]) (rule checkGroup_groupOf)
  then show ?thesis
    using assms(1) by (simp add: lineErrors_def groupOf_def itemUnavailable_def)
qed

lemma checkGroup_zero_errors_item:
  "ls_errors (checkGroup item (userSelectionsByGroup (selectedModifiers item)) grp ls_zero)
     = (if int (length (selectedIn item grp)) < minSelection grp
        then [modifierRequired item grp (length (selectedIn item grp))] else [])
       @ (if int (length (selectedIn item grp)) > maxSelection grp
          then [tooManySelections item grp (length (selectedIn item grp))] else [])
       @ concat (map (\<lambda>oid. ls_errors (checkOption item grp oid ls_zero)) (selectedIn item grp))"
  by (simp add: checkGroup_zero_errors selectionsFor_user selectedIn_def)

lemma valid_no_option_errors:
  "list_all (validSelection grp) ids \<Longrightarrow>
     concat (map (\<lambda>oid. ls_errors (checkOption item grp oid ls_zero)) ids) = []"
  by (induction ids) (simp_all add: checkOption_valid_errors ls_zero_def)

text \<open>
  C8. For a line of an order, the menu item it references and a modifier group of that
  item with minSelection 1 and maxSelection 1 (the item's groups having distinct ids):
  when the line selects nothing in the group, the pass over that group adds exactly one
  error, the modifier-required error for that group, and changes nothing else, and it is
  the only error about that group among the errors validating the line adds; when the
  line selects two options of the group that exist and are available, the pass over that
  group adds exactly one error, the modifier-invalid (too many selections) error for that
  group, and it is the only error about that group among the errors validating the line
  adds.
\<close>

theorem single_choice_group_errors:
  assumes "find (\<lambda>m. menu_id m = menuItemId item) menu = Some menuDef"
    and "grp \<in> set (modifierGroups menuDef)"
    and "distinct (map grp_id (modifierGroups menuDef))"
    and "minSelection grp = 1" and "maxSelection grp = 1"
  shows "(selectedIn item grp = [] \<longrightarrow>
           checkGroup item (userSelectionsByGroup (selectedModifiers item)) grp ls
             = ls\<lparr>ls_errors := ls_errors ls @ [modifierRequired item grp 0]\<rparr>
           \<and> filter (\<lambda>e. groupOf e = Some (grp_id grp))
               (drop (length (vs_errors st)) (vs_errors (validateItem menu item st)))
               = [modifierRequired item grp 0]
           \<and> code (modifierRequired item grp 0) = MODIFIER_REQUIRED)
       \<and> (length (selectedIn item grp) = 2 \<and> list_all (validSelection grp) (selectedIn item grp) \<longrightarrow>
           ls_errors (checkGroup item (userSelectionsByGroup (selectedModifiers item)) grp ls)
             = ls_errors ls @ [tooManySelections item grp 2]
           \<and> filter (\<lambda>e. groupOf e = Some (grp_id grp))
               (drop (length (vs_errors st)) (vs_errors (validateItem menu item st)))
               = [tooManySelections item grp 2]
           \<and> code (tooManySelections item grp 2) = MODIFIER_INVALID)"
proof -
  note pass = single_choice_group_pass [OF assms(4,5), of item ls]
  note f = lineErrors_group_filter [OF assms(1,2,3)]
  have zero: "filter (\<lambda>e. groupOf e = Some (grp_id grp)) (lineErrors menu item)
             = [modifierRequired item grp 0]" if "selectedIn item grp = []"
    unfolding f checkGroup_zero_errors_item
    using that assms(4,5) by (simp add: groupOf_def modifierRequired_def)
  have two: "filter (\<lambda>e. groupOf e = Some (grp_id grp)) (lineErrors menu item)
             = [tooManySelections item grp 2]"
    if "length (selectedIn item grp) = 2" "list_all (validSelection grp) (selectedIn item grp)"
    unfolding f checkGroup_zero_errors_item
    using that assms(4,5)
    by (simp add: valid_no_option_errors groupOf_def tooManySelections_def)
  show ?thesis
    using zero two pass by (simp add: validateItem_new_errors)
qed

text \<open>
  A soda with a single-choice size group: no size chosen, and two sizes chosen; the
  whole validation reports exactly the one error in each case.
\<close>

theorem single_choice_group_errors_witness:
  "find (\<lambda>m. menu_id m = menuItemId soda_none) size_menu = Some (size_menu ! 0)
   \<and> find (\<lambda>m. menu_id m = menuItemId soda_two) size_menu = Some (size_menu ! 0)
   \<and> size_group \<in> set (modifierGroups (size_menu ! 0))
   \<and> distinct (map grp_id (modifierGroups (size_menu ! 0)))
   \<and> minSelection size_group = 1 \<and> maxSelection size_group = 1
   \<and> selectedIn soda_none size_group = []
   \<and> checkGroup soda_none (userSelectionsByGroup (selectedModifiers soda_none)) size_group ls_zero
       = ls_zero\<lparr>ls_errors := [modifierRequired soda_none size_group 0]\<rparr>
   \<and> length (selectedIn soda_two size_group) = 2
   \<and> list_all (validSelection size_group) (selectedIn soda_two size_group)
   \<and> ls_errors (checkGroup soda_two (userSelectionsByGroup (selectedModifiers soda_two))
         size_group ls_zero) = [tooManySelections soda_two size_group 2]
   \<and> errors (validateOrder (mkOrder ''ord_007'' [soda_none]) size_menu ''t1'')
       = [modifierRequired soda_none size_group 0]
   \<and> errors (validateOrder (mkOrder ''ord_008'' [soda_two]) size_menu ''t1'')
       = [tooManySelections soda_two size_group 2]"
proof -
  have f: "find (\<lambda>m. menu_id m = menuItemId soda_none) size_menu = Some (size_menu ! 0)"
    "find (\<lambda>m. menu_id m = menuItemId soda_two) size_menu = Some (size_menu ! 0)"
    by (simp_all add: example_defs)
  have g: "size_group \<in> set (modifierGroups (size_menu ! 0))"
    and d: "distinct (map grp_id (modifierGroups (size_menu ! 0)))"
    by (simp_all add: size_menu_def)
  have m: "minSelection size_group = 1" "maxSelection size_group = 1"
    by (simp_all add: example_defs)
  have z: "selectedIn soda_none size_group = []"
    by (simp add: selectedIn_def example_defs)
  have t: "length (selectedIn soda_two size_group) = 2"
    "list_all (validSelection size_group) (selectedIn soda_two size_group)"
    by (simp_all add: selectedIn_def validSelection_def example_defs)
  have o: "errors (validateOrder (mkOrder ''ord_007'' [soda_none]) size_menu ''t1'')
       = [modifierRequired soda_none size_group 0]"
    "errors (validateOrder (mkOrder ''ord_008'' [soda_two]) size_menu ''t1'')
       = [tooManySelections soda_two size_group 2]"
    by (simp_all add: validator_defs example_defs modifierRequired_def tooManySelections_def)
  show ?thesis
    using single_choice_group_errors [OF f(1) g d m, where ls = ls_zero]
      single_choice_group_errors [OF f(2) g d m, where ls = ls_zero] f g d m z t o
    by (simp add: ls_zero_def)
qed

section \<open>Properties of the submission retry loop\<close>

lemma submitLoop_retry:
  assumes "attempt < 3"
    and "fetch (url @ ''?origin=API'') (formData order) attempt = Resolved r"
    and "isTransient r"
    and "attempt' = attempt + 1" and "delay' = delay * 2"
  shows "submitLoop fetch url order attempt delay sleeps
    = submitLoop fetch url order attempt' delay' (sleeps @ [delay])"
  using assms
  by (subst submitLoop.simps)
     (auto simp: ok_def isTransient_def maxRetries_def backoffFactor_def)

lemma submitLoop_last:
  assumes "fetch (url @ ''?origin=API'') (formData order) 3 = Resolved r"
    and "isTransient r"
  shows "submitLoop fetch url order 3 delay sleeps
    = \<lparr>outcome = httpFailure r, slept = sleeps, attempts = 4\<rparr>"
  using assms
  by (subst submitLoop.simps) (auto simp: ok_def isTransient_def maxRetries_def)

lemma submitLoop_success:
  assumes "attempt \<le> 3"
    and "fetch (url @ ''?origin=API'') (formData order) attempt = Resolved r"
    and "ok r" and "json r = JsonParsed b" and "body_confirmationId b = Some c" and "c \<noteq> []"
  shows "submitLoop fetch url order attempt delay sleeps
    = \<lparr>outcome = ApiResponse \<lparr>confirmationId = c,
          estimatedWaitTimeMinutes = orElse (body_estimatedWaitTimeMinutes b) 15,
          sub_status = received\<rparr>,
       slept = sleeps, attempts = attempt + 1\<rparr>"
  using assms
  by (subst submitLoop.simps) (simp add: maxRetries_def truthy_def)

lemma show_nat_503: "show_nat 503 = ''503''"
  by (simp add: show_nat.simps digit_char_def)

lemma three_transient_then:
  assumes "url \<noteq> []"
    and "\<forall>n<3. transientFailure (fetch (url @ ''?origin=API'') (formData order) n)"
  shows "submitOrder fetch url order = submitLoop fetch url order 3 8000 [1000, 2000, 4000]"
proof -
  have r: "\<exists>r. fetch (url @ ''?origin=API'') (formData order) n = Resolved r \<and> isTransient r"
    if "n < 3" for n
  proof -
    have "transientFailure (fetch (url @ ''?origin=API'') (formData order) n)"
      using assms(2) that by blast
    then show ?thesis
      by (cases "fetch (url @ ''?origin=API'') (formData order) n")
         (simp_all add: transientFailure_def)
  qed
  from r [of 0] obtain r0 where r0:
    "fetch (url @ ''?origin=API'') (formData order) 0 = Resolved r0" "isTransient r0"
    by auto
  from r [of 1] obtain r1 where r1:
    "fetch (url @ ''?origin=API'') (formData order) 1 = Resolved r1" "isTransient r1"
    by (auto simp del: One_nat_def)
  from r [of 2] obtain r2 where r2:
    "fetch (url @ ''?origin=API'') (formData order) 2 = Resolved r2" "isTransient r2"
    by auto
  have start: "submitOrder fetch url order = submitLoop fetch url order 0 1000 []"
    using assms(1) by (simp add: submitOrder_def initialDelayMs_def)
  have s0: "submitLoop fetch url order 0 1000 []
      = submitLoop fetch url order 1 2000 ([] @ [1000])"
    by (rule submitLoop_retry [where r = r0]) (simp_all add: r0 del: One_nat_def)
  have s1: "submitLoop fetch url order 1 2000 ([] @ [1000])
      = submitLoop fetch url order 2 4000 (([] @ [1000]) @ [2000])"
    by (rule submitLoop_retry [where r = r1]) (simp_all add: r1 del: One_nat_def)
  have s2: "submitLoop fetch url order 2 4000 (([] @ [1000]) @ [2000])
      = submitLoop fetch url order 3 8000 ((([] @ [1000]) @ [2000]) @ [4000])"
    by (rule submitLoop_retry [where r = r2]) (simp_all add: r2 del: One_nat_def)
  have l: "(([] @ [1000]) @ [2000]) @ [4000] = [1000, 2000, 4000 :: nat]" by simp
  show ?thesis
    unfolding start s0 s1 s2 l by (rule refl)
qed

text \<open>
  C3. When the endpoint answers the first three attempts with a 503 (or another
  transient failure, a 5xx or 429 response): if the fourth attempt is answered by a 2xx
  response with a confirmation id, the result is the success SubmissionResult; if the
  fourth attempt is answered by such a failure as well, the result is the HTTP failure
  built from that response, with code \<open>HTTP_503\<close> for a 503. In both cases the endpoint
  has been called four times, after three retries, and the delays slept before the
  retries are 1000, 2000 and 4000 ms: the initial delay, multiplied by the backoff factor
  2 at each retry.
\<close>

theorem submit_retries_503:
  assumes "url \<noteq> []"
    and "\<forall>n<3. transientFailure (fetch (url @ ''?origin=API'') (formData order) n)"
  shows "(\<forall>r b c. fetch (url @ ''?origin=API'') (formData order) 3 = Resolved r \<and> ok r
            \<and> json r = JsonParsed b \<and> body_confirmationId b = Some c \<and> c \<noteq> [] \<longrightarrow>
          submitOrder fetch url order
            = \<lparr>outcome = ApiResponse \<lparr>confirmationId = c,
                  estimatedWaitTimeMinutes = orElse (body_estimatedWaitTimeMinutes b) 15,
                  sub_status = received\<rparr>,
               slept = [initialDelayMs, initialDelayMs * backoffFactor,
                        initialDelayMs * backoffFactor * backoffFactor],
               attempts = maxRetries + 1\<rparr>)
     \<and> (\<forall>r. fetch (url @ ''?origin=API'') (formData order) 3 = Resolved r
            \<and> isTransient r \<longrightarrow>
          submitOrder fetch url order
            = \<lparr>outcome = httpFailure r,
               slept = [initialDelayMs, initialDelayMs * backoffFactor,
                        initialDelayMs * backoffFactor * backoffFactor],
               attempts = maxRetries + 1\<rparr>
          \<and> (\<exists>e. httpFailure r = ApiErrorResponse e
                \<and> err_code e = ''HTTP_'' @ show_nat (resp_status r)
                \<and> (resp_status r = 503 \<longrightarrow> err_code e = ''HTTP_503'')))
     \<and> [initialDelayMs, initialDelayMs * backoffFactor,
          initialDelayMs * backoffFactor * backoffFactor] = [1000, 2000, 4000]
     \<and> maxRetries = 3"
proof -
  note start = three_transient_then [where fetch = fetch and url = url and order = order, OF assms]
  have a: "submitOrder fetch url order
            = \<lparr>outcome = ApiResponse \<lparr>confirmationId = c,
                  estimatedWaitTimeMinutes = orElse (body_estimatedWaitTimeMinutes b) 15,
                  sub_status = received\<rparr>,
               slept = [initialDelayMs, initialDelayMs * backoffFactor,
                        initialDelayMs * backoffFactor * backoffFactor],
               attempts = maxRetries + 1\<rparr>"
    if "fetch (url @ ''?origin=API'') (formData order) 3 = Resolved r" and "ok r"
      and "json r = JsonParsed b" and "body_confirmationId b = Some c" and "c \<noteq> []"
    for r b c
    unfolding start
    by (subst submitLoop_success [where r = r and b = b and c = c])
       (simp_all add: that initialDelayMs_def backoffFactor_def maxRetries_def)
  have b: "submitOrder fetch url order
            = \<lparr>outcome = httpFailure r,
               slept = [initialDelayMs, initialDelayMs * backoffFactor,
                        initialDelayMs * backoffFactor * backoffFactor],
               attempts = maxRetries + 1\<rparr>"
    if "fetch (url @ ''?origin=API'') (formData order) 3 = Resolved r" and "isTransient r"
    for r
    unfolding start
    by (subst submitLoop_last [where r = r])
       (simp_all add: that initialDelayMs_def backoffFactor_def maxRetries_def)
  have c: "\<exists>e. httpFailure r = ApiErrorResponse e
                \<and> err_code e = ''HTTP_'' @ show_nat (resp_status r)
                \<and> (resp_status r = 503 \<longrightarrow> err_code e = ''HTTP_503'')" for r
    by (simp add: httpFailure_def Let_def show_nat_503)
  have d: "[initialDelayMs, initialDelayMs * backoffFactor,
          initialDelayMs * backoffFactor * backoffFactor] = [1000, 2000, 4000]"
    by (simp add: initialDelayMs_def backoffFactor_def)
  have e: "maxRetries = 3"
    by (simp add: maxRetries_def)
  show ?thesis using a b c d e by blast
qed

text \<open>
  An endpoint down for three calls and then accepting, and one down for four calls:
  the first run succeeds with the confirmation id, the second fails with \<open>HTTP_503\<close>.
\<close>

theorem submit_retries_503_witness:
  "(''https://pos.example/orders'' :: string) \<noteq> []
   \<and> list_all (\<lambda>n. transientFailure (downFor 3 (''https://pos.example/orders'' @ ''?origin=API'')
         (formData validOrder) n)) [0, 1, 2]
   \<and> list_all (\<lambda>n. transientFailure (downFor 4 (''https://pos.example/orders'' @ ''?origin=API'')
         (formData validOrder) n)) [0, 1, 2, 3]
   \<and> submitOrder (downFor 3) ''https://pos.example/orders'' validOrder
       = \<lparr>outcome = ApiResponse \<lparr>confirmationId = ''conf_1'', estimatedWaitTimeMinutes = 15,
             sub_status = received\<rparr>,
          slept = [1000, 2000, 4000], attempts = 4\<rparr>
   \<and> submitOrder (downFor 4) ''https://pos.example/orders'' validOrder
       = \<lparr>outcome = httpFailure serviceUnavailable, slept = [1000, 2000, 4000], attempts = 4\<rparr>
   \<and> httpFailure serviceUnavailable
       = ApiErrorResponse \<lparr>err_code = ''HTTP_503'', err_message = ''Service Unavailable'',
           err_details = Some \<lparr>body_confirmationId = None, body_estimatedWaitTimeMinutes = None,
             body_message = Some ''Service Unavailable''\<rparr>\<rparr>"
proof -
  have u: "(''https://pos.example/orders'' :: string) \<noteq> []" by simp
  have d3: "\<forall>n<3. transientFailure (downFor 3 (''https://pos.example/orders'' @ ''?origin=API'')
         (formData validOrder) n)"
    by (simp add: downFor_def transientFailure_def isTransient_def serviceUnavailable_def)
  have d4: "\<forall>n<3. transientFailure (downFor 4 (''https://pos.example/orders'' @ ''?origin=API'')
         (formData validOrder) n)"
    by (simp add: downFor_def transientFailure_def isTransient_def serviceUnavailable_def)
  have l: "list_all (\<lambda>n. transientFailure (downFor 3 (''https://pos.example/orders'' @ ''?origin=API'')
         (formData validOrder) n)) [0, 1, 2]"
    "list_all (\<lambda>n. transientFailure (downFor 4 (''https://pos.example/orders'' @ ''?origin=API'')
         (formData validOrder) n)) [0, 1, 2, 3]"
    by (simp_all add: downFor_def transientFailure_def isTransient_def serviceUnavailable_def)
  have ok3: "downFor 3 (''https://pos.example/orders'' @ ''?origin=API'') (formData validOrder) 3
      = Resolved accepted" "ok accepted"
    "json accepted = JsonParsed \<lparr>body_confirmationId = Some ''conf_1'',
       body_estimatedWaitTimeMinutes = None, body_message = None\<rparr>"
    by (simp_all add: downFor_def accepted_def ok_def)
  have ko4: "downFor 4 (''https://pos.example/orders'' @ ''?origin=API'') (formData validOrder) 3
      = Resolved serviceUnavailable" "isTransient serviceUnavailable"
    by (simp_all add: downFor_def serviceUnavailable_def isTransient_def)
  have h: "httpFailure serviceUnavailable
       = ApiErrorResponse \<lparr>err_code = ''HTTP_503'', err_message = ''Service Unavailable'',
           err_details = Some \<lparr>body_confirmationId = None, body_estimatedWaitTimeMinutes = None,
             body_message = Some ''Service Unavailable''\<rparr>\<rparr>"
    by (simp add: httpFailure_def serviceUnavailable_def truthy_def show_nat_503)
  note up = submit_retries_503 [where fetch = "downFor 3" and order = validOrder, OF u d3]
  note down = submit_retries_503 [where fetch = "downFor 4" and order = validOrder, OF u d4]
  have s3: "submitOrder (downFor 3) ''https://pos.example/orders'' validOrder
       = \<lparr>outcome = ApiResponse \<lparr>confirmationId = ''conf_1'', estimatedWaitTimeMinutes = 15,
             sub_status = received\<rparr>,
          slept = [1000, 2000, 4000], attempts = 4\<rparr>"
    using up [THEN conjunct1, rule_format, of accepted
        "\<lparr>body_confirmationId = Some ''conf_1'', body_estimatedWaitTimeMinutes = None,
          body_message = None\<rparr>" "''conf_1''"] ok3
    by (simp add: orElse_def initialDelayMs_def backoffFactor_def maxRetries_def)
  have s4: "submitOrder (downFor 4) ''https://pos.example/orders'' validOrder
       = \<lparr>outcome = httpFailure serviceUnavailable, slept = [1000, 2000, 4000], attempts = 4\<rparr>"
    using down [THEN conjunct2, THEN conjunct1, rule_format, of serviceUnavailable] ko4
    by (simp add: initialDelayMs_def backoffFactor_def maxRetries_def)
  show ?thesis
    using u l s3 s4 h by blast
qed

section \<open>Properties of the matcher and the mutator\<close>















section \<open>Properties of the orchestrator\<close>

lemma str_includes_iff: "str_includes s p = (\<exists>a b. s = a @ p @ b)"
proof (induction s)
  case Nil
  show ?case by auto
next
  case (Cons c cs)
  have "(\<exists>a b. c # cs = a @ p @ b) = (prefix p (c # cs) \<or> (\<exists>a b. cs = a @ p @ b))"
  proof
    assume "\<exists>a b. c # cs = a @ p @ b"
    then obtain a b where ab: "c # cs = a @ p @ b" by blast
    show "prefix p (c # cs) \<or> (\<exists>a b. cs = a @ p @ b)"
    proof (cases a)
      case Nil
      then show ?thesis using ab by (auto simp: prefix_def)
    next
      case (Cons x a')
      then show ?thesis using ab by auto
    qed
  next
    assume "prefix p (c # cs) \<or> (\<exists>a b. cs = a @ p @ b)"
    then show "\<exists>a b. c # cs = a @ p @ b"
    proof
      assume "prefix p (c # cs)"
      then obtain b where "c # cs = p @ b" by (auto simp: prefix_def)
      then have "c # cs = [] @ p @ b" by simp
      then show ?thesis by blast
    next
      assume "\<exists>a b. cs = a @ p @ b"
      then obtain a b where "cs = a @ p @ b" by blast
      then have "c # cs = (c # a) @ p @ b" by simp
      then show ?thesis by blast
    qed
  qed
  then show ?case using Cons.IH by simp
qed

lemma join_contains: "x \<in> set xs \<Longrightarrow> \<exists>a b. join sep xs = a @ x @ b"
proof (induction sep xs rule: join.induct)
  case (1 sep)
  then show ?case by simp
next
  case (2 sep y)
  then have "join sep [y] = [] @ x @ []" by simp
  then show ?case by blast
next
  case (3 sep y z zs)
  show ?case
  proof (cases "x = y")
    case True
    then have "join sep (y # z # zs) = [] @ x @ (sep @ join sep (z # zs))" by simp
    then show ?thesis by blast
  next
    case False
    then have "x \<in> set (z # zs)" using 3 by simp
    then obtain a b where "join sep (z # zs) = a @ x @ b" using 3 by blast
    then have "join sep (y # z # zs) = (y @ sep @ a) @ x @ b" by simp
    then show ?thesis by blast
  qed
qed

lemma override_includes:
  assumes "x \<in> set xs"
  shows "str_includes (pre @ join sep xs) x"
proof -
  from join_contains [OF assms] obtain a b where "join sep xs = a @ x @ b" by blast
  then have "pre @ join sep xs = (pre @ a) @ x @ b" by simp
  then show ?thesis unfolding str_includes_iff by blast
qed

lemma addItemFromText_status:
  "status (fst (addItemFromText userText menu order nowMs nowIso)) = status order"
  by (simp add: addItemFromText_def addMatchedItem_def Let_def split: option.split)

text \<open>
  C2. When the current order has status pending and fails validation against the
  fetched menu, and the user text matches the finalize-intent pattern: if the reply
  generator fails, the call ends with a ConversationError and returns no state;
  otherwise it returns a state whose order still has status pending and whose history
  ends with an assistant turn whose content is the guardrail's message, which is made of
  the validation error messages and contains each of them, whatever the generator
  replied.
\<close>

theorem guardrail_keeps_pending:
  assumes "status (currentOrder state) = pending"
    and "finalizeIntent userText"
    and "\<not> isValid (validateOrder (currentOrder state)
            (case fetched of None \<Rightarrow> [] | Some menu \<Rightarrow> menu) nowIso)"
  shows "advanceConversation state userText fetched None nowMs nowIso
      = Inl (ConversationError ''Failed to generate response.'' ''AI_SERVICE_ERROR'')
    \<and> (\<exists>st'. advanceConversation state userText fetched (Some generated) nowMs nowIso = Inr st'
          \<and> status (currentOrder st') = pending
          \<and> length (history st') = length (history state) + 2
          \<and> butlast (butlast (history st')) = history state
          \<and> role (last (history st')) = assistant
          \<and> content (last (history st'))
              = ''I can't place the order yet. ''
                @ join '' '' (map message (errors (validateOrder (currentOrder state)
                    (case fetched of None \<Rightarrow> [] | Some menu \<Rightarrow> menu) nowIso)))
          \<and> errors (validateOrder (currentOrder state)
                    (case fetched of None \<Rightarrow> [] | Some menu \<Rightarrow> menu) nowIso) \<noteq> []
          \<and> list_all (\<lambda>e. str_includes (content (last (history st'))) (message e))
                (errors (validateOrder (currentOrder state)
                    (case fetched of None \<Rightarrow> [] | Some menu \<Rightarrow> menu) nowIso)))"
proof -
  let ?menu = "case fetched of None \<Rightarrow> [] | Some menu \<Rightarrow> menu"
  let ?v = "validateOrder (currentOrder state) ?menu nowIso"
  let ?text = "''I can't place the order yet. '' @ join '' '' (map message (errors ?v))"
  have ne: "errors ?v \<noteq> []"
    using assms(3) by (simp add: validateOrder_eq)
  have inc: "list_all (\<lambda>e. str_includes ?text (message e)) (errors ?v)"
    unfolding list_all_iff
  proof
    fix e assume "e \<in> set (errors ?v)"
    then have "message e \<in> set (map message (errors ?v))" by simp
    then show "str_includes ?text (message e)" by (rule override_includes)
  qed
  have fail: "advanceConversation state userText fetched None nowMs nowIso
      = Inl (ConversationError ''Failed to generate response.'' ''AI_SERVICE_ERROR'')"
    by (simp add: advanceConversation_def Let_def)
  obtain st' where st': "advanceConversation state userText fetched (Some generated) nowMs nowIso
      = Inr st'"
    by (simp add: advanceConversation_def Let_def)
  from st' assms have props: "status (currentOrder st') = pending"
    "length (history st') = length (history state) + 2"
    "butlast (butlast (history st')) = history state"
    "role (last (history st')) = assistant"
    "content (last (history st')) = ?text"
    by (auto simp: advanceConversation_def Let_def addItemFromText_status butlast_append)
  show ?thesis
    using fail st' props ne inc by simp
qed

text \<open>
  The fries of the example menu are unavailable; on \<open>please confirm\<close> the order stays
  pending and the assistant turn carries the validation message, not the generator's
  confirmation.
\<close>

theorem guardrail_keeps_pending_witness:
  "status (currentOrder friesState) = pending
   \<and> finalizeIntent ''please confirm''
   \<and> \<not> isValid (validateOrder (currentOrder friesState) ex_menu ''t1'')
   \<and> (case advanceConversation friesState ''please confirm'' (Some ex_menu)
         (Some ''Great, your order is confirmed!'') 1700000000000 ''t1'' of
         Inl e \<Rightarrow> False
       | Inr st' \<Rightarrow> status (currentOrder st') = pending
           \<and> content (last (history st'))
             = ''I can't place the order yet. Item 'French Fries' is currently unavailable.'')"
proof -
  have p: "status (currentOrder friesState) = pending"
    by (simp add: friesState_def mkOrder_def)
  have f: "finalizeIntent ''please confirm''"
    by code_simp
  have e: "errors (validateOrder (currentOrder friesState) ex_menu ''t1'')
      = [itemUnavailable (mkLine ''item_2'' ''fries_side'' 1 []) (ex_menu ! 1)]"
    by (simp add: validator_defs example_defs friesState_def)
  have v: "\<not> isValid (validateOrder (currentOrder friesState)
      (case Some ex_menu of None \<Rightarrow> [] | Some menu \<Rightarrow> menu) ''t1'')"
    by (simp add: validator_defs example_defs friesState_def)
  from guardrail_keeps_pending
    [where state = friesState and userText = "''please confirm''" and fetched = "Some ex_menu"
      and nowIso = "''t1''" and nowMs = 1700000000000
      and generated = "''Great, your order is confirmed!''", OF p f v]
  obtain st' where st': "advanceConversation friesState ''please confirm'' (Some ex_menu)
         (Some ''Great, your order is confirmed!'') 1700000000000 ''t1'' = Inr st'"
    and s: "status (currentOrder st') = pending"
    and c: "content (last (history st')) = ''I can't place the order yet. ''
        @ join '' '' (map message (errors (validateOrder (currentOrder friesState) ex_menu ''t1'')))"
    by auto
  have "content (last (history st'))
      = ''I can't place the order yet. Item 'French Fries' is currently unavailable.''"
    by (simp only: c e) (simp add: itemUnavailable_def example_defs)
  then show ?thesis using p f v st' s by simp
qed

end
